theory Spec2Isabelle
  imports Complex_Main "HOL-Library.Sublist" "HOL-Library.AList"
begin

section \<open>Python values and string primitives\<close>

text \<open>
  Text is modelled as \<^typ>\<open>string\<close>, one \<^typ>\<open>char\<close> per code point, so the model covers
  texts whose code points lie below 256 (Latin-1).  On that range the functions below are
  Python's \<^verbatim>\<open>str.isspace\<close>, \<^verbatim>\<open>str.lower\<close>, \<^verbatim>\<open>str.strip\<close>, \<^verbatim>\<open>str.split\<close>
  (no argument) and \<^verbatim>\<open>str.join\<close>.
\<close>

definition isspace :: "char \<Rightarrow> bool" where
  "isspace c = ((of_char c :: nat) \<in> {9, 10, 11, 12, 13, 28, 29, 30, 31, 32, 133, 160})"

definition lower_char :: "char \<Rightarrow> char" where
  "lower_char c =
     (let n = (of_char c :: nat)
      in if (65 \<le> n \<and> n \<le> 90) \<or> (192 \<le> n \<and> n \<le> 222 \<and> n \<noteq> 215)
         then char_of (n + 32) else c)"

definition lower :: "string \<Rightarrow> string" where
  "lower s = map lower_char s"

definition strip :: "string \<Rightarrow> string" where
  "strip s = rev (dropWhile isspace (rev (dropWhile isspace s)))"

text \<open>\<^verbatim>\<open>s.split()\<close>: the maximal runs of non-whitespace characters, in order.\<close>

fun split_acc :: "string \<Rightarrow> string \<Rightarrow> string list" where
  "split_acc w [] = (if w = [] then [] else [w])"
| "split_acc w (c # cs) =
     (if isspace c then (if w = [] then split_acc [] cs else w # split_acc [] cs)
      else split_acc (w @ [c]) cs)"

definition split :: "string \<Rightarrow> string list" where
  "split s = split_acc [] s"

fun join :: "string \<Rightarrow> string list \<Rightarrow> string" where
  "join sep [] = []"
| "join sep [x] = x"
| "join sep (x # y # ys) = x @ sep @ join sep (y # ys)"

text \<open>\<^verbatim>\<open>k in s\<close> on strings: \<open>k\<close> occurs in \<open>s\<close> as a contiguous substring.\<close>

definition contains :: "string \<Rightarrow> string \<Rightarrow> bool" where
  "contains s k = sublist k s"

text \<open>
  A Python float: a finite double, given by its exact rational value, or one of the
  special values.  Comparisons between numbers in Python are exact, so they are the
  comparisons of these values; every comparison with NaN is false.
\<close>

datatype pyfloat = Finite rat | PosInf | NegInf | NaN

definition isnan :: "pyfloat \<Rightarrow> bool" where
  "isnan f = (f = NaN)"

text \<open>\<^verbatim>\<open>n <= f\<close> and \<^verbatim>\<open>f <= n\<close> for an int \<open>n\<close> and a float \<open>f\<close>.\<close>

fun int_le_float :: "int \<Rightarrow> pyfloat \<Rightarrow> bool" where
  "int_le_float n (Finite q) = (of_int n \<le> q)"
| "int_le_float n PosInf = True"
| "int_le_float n NegInf = False"
| "int_le_float n NaN = False"

fun float_le_int :: "pyfloat \<Rightarrow> int \<Rightarrow> bool" where
  "float_le_int (Finite q) n = (q \<le> of_int n)"
| "float_le_int PosInf n = False"
| "float_le_int NegInf n = True"
| "float_le_int NaN n = False"

text \<open>
  A cell value as the spreadsheet readers hand it over: \<^verbatim>\<open>None\<close>, a \<^verbatim>\<open>str\<close>, an
  \<^verbatim>\<open>int\<close>, a \<^verbatim>\<open>float\<close>, a \<^verbatim>\<open>bool\<close>, or a date/time object (\<open>COther\<close>, carried as
  the text \<^verbatim>\<open>str()\<close> gives for it; such an object is truthy and \<^verbatim>\<open>float()\<close> raises
  \<^verbatim>\<open>TypeError\<close> on it).
\<close>

datatype cell = CNone | CStr string | CInt int | CFloat pyfloat | CBool bool | COther string

text \<open>
  The two conversions between text and finite floats belong to the Python runtime and are
  parameters of the model: \<open>float_of_str s\<close> is \<^verbatim>\<open>float(s)\<close> for a string, \<open>None\<close> when it
  raises \<^verbatim>\<open>ValueError\<close>; \<open>str_of_finite q\<close> is \<^verbatim>\<open>str(f)\<close> for the finite float of
  value \<open>q\<close>.
\<close>

record runtime =
  float_of_str :: "string \<Rightarrow> pyfloat option"
  str_of_finite :: "rat \<Rightarrow> string"

text \<open>\<^verbatim>\<open>str(n)\<close> for an int: decimal digits, with a minus sign when negative.\<close>

function str_digits :: "int \<Rightarrow> string" where
  "str_digits n =
     (if n < 10 then [char_of (48 + n)]
      else str_digits (n div 10) @ [char_of (48 + n mod 10)])"
  by pat_completeness auto
termination
  by (relation "measure nat") auto

declare str_digits.simps [simp del]

definition str_int :: "int \<Rightarrow> string" where
  "str_int i = (if i < 0 then CHR ''-'' # str_digits (- i) else str_digits i)"

fun str_float :: "runtime \<Rightarrow> pyfloat \<Rightarrow> string" where
  "str_float rt (Finite q) = str_of_finite rt q"
| "str_float rt PosInf = ''inf''"
| "str_float rt NegInf = ''-inf''"
| "str_float rt NaN = ''nan''"

fun str_cell :: "runtime \<Rightarrow> cell \<Rightarrow> string" where
  "str_cell rt CNone = ''None''"
| "str_cell rt (CStr s) = s"
| "str_cell rt (CInt i) = str_int i"
| "str_cell rt (CFloat f) = str_float rt f"
| "str_cell rt (CBool b) = (if b then ''True'' else ''False'')"
| "str_cell rt (COther s) = s"

text \<open>\<^verbatim>\<open>pd.isna(x)\<close> on a scalar: true for \<^verbatim>\<open>None\<close> and for the float NaN.\<close>

fun isna :: "cell \<Rightarrow> bool" where
  "isna CNone = True"
| "isna (CFloat f) = isnan f"
| "isna _ = False"

section \<open>The category classifier (MISC/xlsx_processor.py)\<close>

text \<open>\<^verbatim>\<open>any(k in s for k in ks)\<close>\<close>

definition any_in :: "string \<Rightarrow> string list \<Rightarrow> bool" where
  "any_in s ks = list_ex (\<lambda>k. contains s k) ks"

definition veteran_keywords :: "string list" where
  "veteran_keywords = [''veteran'', ''va health'', ''va clinic'']"

definition safety_keywords :: "string list" where
  "safety_keywords =
     [''domestic violence'', ''dv'', ''sexual assault'', ''intimate partner'',
      ''safe house'', ''violence'', ''trafficking'']"

definition behavioral_keywords :: "string list" where
  "behavioral_keywords =
     [''behavioral health'', ''mental health'', ''psychiat'', ''counseling'',
      ''crisis'', ''hotline'', ''suicide'', ''harm reduction'', ''overdose'',
      ''substance use'', ''addiction'', ''recovery'', ''mat program'', ''peer support'']"

definition health_keywords :: "string list" where
  "health_keywords =
     [''healthcare'', ''health care'', ''health center'', ''clinic'', ''medical'',
      ''hospital'', ''fqh'', ''fqhc'', ''sliding scale'', ''charity care'',
      ''vision'', ''dental'', ''women/lgbtq'', ''lgbtq+ health'']"

definition housing_keywords :: "string list" where
  "housing_keywords =
     [''shelter'', ''housing'', ''supportive housing'', ''emergency shelter'',
      ''transitional'', ''safe haven'', ''overnight'', ''rapid rehousing'',
      ''tenant'', ''landlord'', ''homeownership'', ''home repair'']"

definition food_keywords :: "string list" where
  "food_keywords =
     [''food'', ''pantry'', ''soup kitchen'', ''meal'', ''meals'',
      ''groceries'', ''grocery'', ''clothing'', ''clothes'',
      ''basic needs'', ''essentials'', ''household goods'',
      ''day center'', ''day resource'']"

definition financial_keywords :: "string list" where
  "financial_keywords =
     [''benefits'', ''assistance program'', ''financial assistance'',
      ''cash'', ''income support'', ''tax credit'', ''tax help'',
      ''utility assistance'', ''utilities'', ''electric'', ''gas bill'',
      ''water bill'', ''communications discount'', ''lifeline'',
      ''digital access'', ''internet'', ''broadband'']"

definition employment_keywords :: "string list" where
  "employment_keywords =
     [''employment'', ''job'', ''jobs'', ''career'', ''workforce'',
      ''training'', ''job training'', ''vocational'', ''rehabilitation'',
      ''apprentice'', ''internship'', ''resume'', ''interview skills'',
      ''youth employment'', ''summer jobs'', ''education/employment'',
      ''ged'', ''adult education'']"

definition youth_keywords :: "string list" where
  "youth_keywords =
     [''youth'', ''teen'', ''family'', ''child'', ''children'',
      ''early childhood'', ''family support'', ''parenting'',
      ''mentor'', ''drop-in'', ''advocacy'',
      ''community space'', ''community center'',
      ''culture & food access'', ''community services'']"

definition classify_category :: "runtime \<Rightarrow> cell \<Rightarrow> string" where
  "classify_category rt text =
     (if isna text then ''Other / Uncategorized''
      else let s = lower (strip (str_cell rt text))
      in if any_in s veteran_keywords then ''Veteran Services''
         else if any_in s safety_keywords then ''Safety & Anti-Violence''
         else if any_in s behavioral_keywords then ''Behavioral Health, Substance Use, & Crisis''
         else if any_in s health_keywords then ''Physical & General Health Care''
         else if any_in s housing_keywords then ''Housing & Shelter''
         else if any_in s food_keywords then ''Food & Essential Needs''
         else if any_in s financial_keywords then ''Financial & Access Support''
         else if any_in s employment_keywords then ''Employment, Training, & Education''
         else if any_in s youth_keywords then ''Youth, Family, & General Support Services''
         else ''Other / Uncategorized'')"

text \<open>
  The priority order as the specification words it: the categories in their fixed order,
  each with the keywords it owns, and the first category with a keyword in the text wins.
\<close>

definition priority_order :: "(string \<times> string list) list" where
  "priority_order =
     [(''Veteran Services'', veteran_keywords),
      (''Safety & Anti-Violence'', safety_keywords),
      (''Behavioral Health, Substance Use, & Crisis'', behavioral_keywords),
      (''Physical & General Health Care'', health_keywords),
      (''Housing & Shelter'', housing_keywords),
      (''Food & Essential Needs'', food_keywords),
      (''Financial & Access Support'', financial_keywords),
      (''Employment, Training, & Education'', employment_keywords),
      (''Youth, Family, & General Support Services'', youth_keywords)]"

fun first_match :: "string \<Rightarrow> (string \<times> string list) list \<Rightarrow> string" where
  "first_match s [] = ''Other / Uncategorized''"
| "first_match s ((c, ks) # rest) =
     (if \<exists>k \<in> set ks. sublist k s then c else first_match s rest)"

section \<open>Spreadsheet ingestion (map/views.py)\<close>

subsection \<open>Conversions of the Python runtime\<close>

text \<open>\<^verbatim>\<open>bool(x)\<close>, as used by \<^verbatim>\<open>h or ""\<close>.\<close>

fun truthy :: "cell \<Rightarrow> bool" where
  "truthy CNone = False"
| "truthy (CStr s) = (s \<noteq> [])"
| "truthy (CInt i) = (i \<noteq> 0)"
| "truthy (CFloat f) = (f \<noteq> Finite 0)"
| "truthy (CBool b) = b"
| "truthy (COther s) = True"

text \<open>
  \<^verbatim>\<open>float(i)\<close> for an int: the nearest double, ties to the even mantissa of 53 bits;
  \<open>None\<close> stands for the \<^verbatim>\<open>OverflowError\<close> raised when that is beyond the largest double.
\<close>

function bit_length :: "int \<Rightarrow> nat" where
  "bit_length a = (if a \<le> 0 then 0 else Suc (bit_length (a div 2)))"
  by pat_completeness auto
termination
  by (relation "measure nat") auto

declare bit_length.simps [simp del]

definition float_of_int :: "int \<Rightarrow> pyfloat option" where
  "float_of_int i =
     (let a = \<bar>i\<bar>;
          e = bit_length a;
          m = (if e \<le> 53 then a
               else let sh = e - 53; q = a div 2 ^ sh; r = a mod 2 ^ sh; h = 2 ^ (sh - 1)
                    in (if h < r \<or> (r = h \<and> odd q) then q + 1 else q) * 2 ^ sh)
      in if 2 ^ 1024 \<le> m then None else Some (Finite (of_int (sgn i * m))))"

text \<open>\<^verbatim>\<open>float(x)\<close>; \<open>None\<close> when it raises (\<^verbatim>\<open>TypeError\<close>, \<^verbatim>\<open>ValueError\<close>, \<^verbatim>\<open>OverflowError\<close>).\<close>

fun float_cell :: "runtime \<Rightarrow> cell \<Rightarrow> pyfloat option" where
  "float_cell rt CNone = None"
| "float_cell rt (CStr s) = float_of_str rt s"
| "float_cell rt (CInt i) = float_of_int i"
| "float_cell rt (CFloat f) = Some f"
| "float_cell rt (CBool b) = Some (Finite (if b then 1 else 0))"
| "float_cell rt (COther s) = None"

text \<open>The function \<^verbatim>\<open>_to_float\<close>: the float of a cell, \<open>None\<close> when there is no usable number.\<close>

definition to_float :: "runtime \<Rightarrow> cell \<Rightarrow> pyfloat option" where
  "to_float rt x =
     (if x = CNone then None
      else case float_cell rt x of
             None \<Rightarrow> None
           | Some f \<Rightarrow> if isnan f then None else Some f)"

subsection \<open>Headers and cells\<close>

definition norm_text :: "runtime \<Rightarrow> cell \<Rightarrow> string" where
  "norm_text rt s = (if s \<noteq> CNone then join '' '' (split (lower (strip (str_cell rt s)))) else [])"

text \<open>\<^verbatim>\<open>headers = [h or "" for h in header_row]\<close>\<close>

definition headers_of :: "cell list \<Rightarrow> cell list" where
  "headers_of header_row = map (\<lambda>h. if truthy h then h else CStr []) header_row"

text \<open>
  \<^verbatim>\<open>{norm(h): idx for idx, h in enumerate(headers)}\<close>: the entries are stored from left
  to right, a later header overwriting an earlier one of the same normalised name.
\<close>

definition header_map :: "runtime \<Rightarrow> cell list \<Rightarrow> (string \<rightharpoonup> nat)" where
  "header_map rt hs =
     fold (\<lambda>(idx, h) m. m(norm_text rt h \<mapsto> idx)) (enumerate 0 hs) Map.empty"

fun grab :: "runtime \<Rightarrow> (string \<rightharpoonup> nat) \<Rightarrow> cell list \<Rightarrow> string list \<Rightarrow> cell \<Rightarrow> cell" where
  "grab rt hm row [] dflt = dflt"
| "grab rt hm row (n # names) dflt =
     (case hm (norm_text rt (CStr n)) of
        None \<Rightarrow> grab rt hm row names dflt
      | Some idx \<Rightarrow>
          if idx < length row
          then (let val = row ! idx
                in if val \<noteq> CNone then val else grab rt hm row names dflt)
          else grab rt hm row names dflt)"

definition to_bool_flag :: "runtime \<Rightarrow> cell \<Rightarrow> bool option" where
  "to_bool_flag rt v =
     (if v = CNone then None
      else let s = lower (strip (str_cell rt v))
      in if s \<in> {''yes'', ''y'', ''true'', ''1''} then Some True
         else if s \<in> {''no'', ''n'', ''false'', ''0''} then Some False
         else None)"

subsection \<open>The row loop\<close>

text \<open>
  One output record; the fields are the keys of the source's dictionary (\<open>rid\<close> is the
  key \<^verbatim>\<open>"id"\<close>, which holds either the cell of the sheet or an assigned int).
\<close>

record resource =
  rid :: cell
  name :: string
  lat :: pyfloat
  lng :: pyfloat
  category :: string
  phone_number :: string
  address :: string
  email :: string
  description :: string
  restrictions :: string
  days :: string
  link :: string
  legit :: "bool option"
  confirmed :: "bool option"
  reliability :: string
  call_notes :: string

text \<open>
  The dictionary \<^verbatim>\<open>diag\<close> (\<open>file_exists\<close> is its key \<^verbatim>\<open>"exists"\<close>); the path of the
  file and the title of the sheet, which the loop neither reads nor writes, are left out.
\<close>

record diagnostics =
  file_exists :: bool
  headers :: "cell list"
  parsed_rows :: nat
  skipped_no_coords :: nat
  bad_latlng :: nat
  errors :: "string list"
  sample_row :: "resource option"

text \<open>\<^verbatim>\<open>-90 <= lat <= 90 and -180 <= lng <= 180\<close>\<close>

definition valid_latlng :: "pyfloat \<Rightarrow> pyfloat \<Rightarrow> bool" where
  "valid_latlng la lo =
     (int_le_float (- 90) la \<and> float_le_int la 90
      \<and> int_le_float (- 180) lo \<and> float_le_int lo 180)"

text \<open>\<^verbatim>\<open>str(grab(row, *names, default="")).strip()\<close>\<close>

definition grab_text :: "runtime \<Rightarrow> (string \<rightharpoonup> nat) \<Rightarrow> cell list \<Rightarrow> string list \<Rightarrow> string" where
  "grab_text rt hm row names = strip (str_cell rt (grab rt hm row names (CStr [])))"

text \<open>
  The body of the loop over the data rows, on the pair of the list \<^verbatim>\<open>resources\<close> and
  the dictionary \<^verbatim>\<open>diag\<close>.  The second alias of the reliability column in the source
  is spelt with the code point U+2013, which no text of the model contains: its lookup in
  the header map fails for every modelled header row, so the loop over the aliases passes
  it by, and the list below leaves it out.
\<close>

definition process_row ::
  "runtime \<Rightarrow> (string \<rightharpoonup> nat) \<Rightarrow> resource list \<times> diagnostics \<Rightarrow> cell list
     \<Rightarrow> resource list \<times> diagnostics" where
  "process_row rt hm st row =
     (let resources = fst st; diag = snd st;
          name0 = grab_text rt hm row [''Name of Service'', ''Name''];
          address0 = grab_text rt hm row [''Address''];
          phone = grab_text rt hm row [''Phone Number'', ''Phone''];
          email0 = grab_text rt hm row [''Email''];
          category0 = grab_text rt hm row
                        [''Cateogry of Help'', ''Category of Help'', ''Category''];
          category1 = (if category0 \<noteq> [] then category0 else ''Uncategorized'');
          desc = grab_text rt hm row [''Description''];
          restrictions0 = grab_text rt hm row [''Restrictions of Service''];
          days0 = grab_text rt hm row [''Days of Service''];
          link0 = grab_text rt hm row [''link to site'', ''Website'', ''Link''];
          legit_raw = grab rt hm row [''Legitimate place?'', ''Legitimate place ?''] (CStr []);
          confirmed_raw =
            grab rt hm row [''called + confirmed?'', ''called + confirmed ?''] (CStr []);
          reliability_raw = grab_text rt hm row [''Reliability Rate 1-10'', ''Reliability''];
          reliability0 =
            (if reliability_raw \<notin> {[], ''nan'', ''none''} then reliability_raw else ''na'');
          call_exp = grab_text rt hm row [''Call experience''];
          extra = grab_text rt hm row [''Unnamed: 18''];
          call_notes0 = join '' | '' (filter (\<lambda>x. x \<noteq> []) [call_exp, extra]);
          lat_raw = grab rt hm row [''Latitude'', ''Lat''] CNone;
          lng_raw = grab rt hm row [''Longitude'', ''Lng'', ''Long''] CNone
      in case (to_float rt lat_raw, to_float rt lng_raw) of
           (Some la, Some lo) \<Rightarrow>
             if \<not> valid_latlng la lo
             then (resources, diag\<lparr>bad_latlng := bad_latlng diag + 1\<rparr>)
             else
               let rid0 = grab rt hm row [''ID'', ''id''] CNone;
                   rid1 = (if rid0 = CNone \<or> strip (str_cell rt rid0) = []
                           then CInt (int (length resources) + 1) else rid0);
                   res = \<lparr>rid = rid1,
                          name = (if name0 \<noteq> [] then name0 else ''Unnamed resource''),
                          lat = la, lng = lo, category = category1, phone_number = phone,
                          address = address0, email = email0, description = desc,
                          restrictions = restrictions0, days = days0, link = link0,
                          legit = to_bool_flag rt legit_raw,
                          confirmed = to_bool_flag rt confirmed_raw,
                          reliability = reliability0, call_notes = call_notes0\<rparr>
               in (resources @ [res], diag)
         | _ \<Rightarrow> (resources, diag\<lparr>skipped_no_coords := skipped_no_coords diag + 1\<rparr>))"

definition process_rows ::
  "runtime \<Rightarrow> (string \<rightharpoonup> nat) \<Rightarrow> cell list list \<Rightarrow> resource list \<times> diagnostics
     \<Rightarrow> resource list \<times> diagnostics" where
  "process_rows rt hm rows st = foldl (process_row rt hm) st rows"

definition initial_diag :: "bool \<Rightarrow> diagnostics" where
  "initial_diag ex =
     \<lparr>file_exists = ex, headers = [], parsed_rows = 0, skipped_no_coords = 0, bad_latlng = 0,
      errors = [], sample_row = None\<rparr>"

text \<open>
  The loader on a worksheet that was opened (its header row and its data rows), or on
  \<open>None\<close> when the file does not exist.  No statement of the loop raises on the cell
  values of the model, so the handler around it is never entered from there.
\<close>

definition load_resources_from_xlsx ::
  "runtime \<Rightarrow> (cell list \<times> cell list list) option \<Rightarrow> resource list \<times> diagnostics" where
  "load_resources_from_xlsx rt ws =
     (case ws of
        None \<Rightarrow> ([], (initial_diag False)\<lparr>errors := [''File not found'']\<rparr>)
      | Some (header_row, rows) \<Rightarrow>
          let hs = headers_of header_row;
              diag0 = (initial_diag True)\<lparr>headers := hs\<rparr>;
              hm = header_map rt hs;
              st = process_rows rt hm rows ([], diag0);
              resources = fst st; diag = snd st
          in (resources,
              diag\<lparr>parsed_rows := length resources,
                   sample_row := (case resources of [] \<Rightarrow> None | r # _ \<Rightarrow> Some r)\<rparr>))"

section \<open>The preparation script (MISC/xlsx_processor.py)\<close>

subsection \<open>Data frames\<close>

text \<open>
  A data frame: its number of rows and its columns in order, each a name with one cell
  per row.  Missing values are \<open>CNone\<close> and the float NaN; \<^verbatim>\<open>pd.NA\<close>, which the script
  only ever tests with \<^verbatim>\<open>pd.notna\<close>, is modelled by \<open>CNone\<close>.
\<close>

record dataframe =
  nrows :: nat
  cols :: "(string \<times> cell list) list"

definition columns :: "dataframe \<Rightarrow> string list" where
  "columns df = map fst (cols df)"

text \<open>\<^verbatim>\<open>df[c]\<close> for a column the frame has (every use below is behind such a test).\<close>

definition column :: "dataframe \<Rightarrow> string \<Rightarrow> cell list" where
  "column df c = (case map_of (cols df) c of Some vs \<Rightarrow> vs | None \<Rightarrow> [])"

text \<open>\<^verbatim>\<open>df[c] = vs\<close>: replaces the column in place or appends a new one.\<close>

definition set_column :: "dataframe \<Rightarrow> string \<Rightarrow> cell list \<Rightarrow> dataframe" where
  "set_column df c vs = df\<lparr>cols := AList.update c vs (cols df)\<rparr>"

text \<open>\<^verbatim>\<open>df.get(c, pd.NA)\<close>, assigned to a column: the column, or the scalar in every row.\<close>

definition get_or_na :: "dataframe \<Rightarrow> string \<Rightarrow> cell list" where
  "get_or_na df c = (case map_of (cols df) c of Some vs \<Rightarrow> vs | None \<Rightarrow> replicate (nrows df) CNone)"

definition ADDRESS_COL :: string where
  "ADDRESS_COL = ''Address''"

definition CATEGORY_COL :: string where
  "CATEGORY_COL = ''Cateogry of Help''"

definition RUN_GEOCODING :: bool where
  "RUN_GEOCODING = True"

definition RUN_RECAT :: bool where
  "RUN_RECAT = True"

datatype py_error = ValueError | FileNotFoundError

text \<open>The lines the script prints.\<close>

datatype message =
    GeocodingComplete nat
  | RecatColumnNotFound
  | RecatComplete
  | SkippingGeocoding
  | SkippingRecat
  | Done

subsection \<open>Geocoding\<close>

text \<open>\<^verbatim>\<open>re.sub(r"\s+", " ", s)\<close>: every maximal run of whitespace becomes one space.\<close>

function collapse_ws :: "string \<Rightarrow> string" where
  "collapse_ws [] = []"
| "collapse_ws (c # cs) =
     (if isspace c then CHR '' '' # collapse_ws (dropWhile isspace cs)
      else c # collapse_ws cs)"
  by pat_completeness auto
termination
  by (relation "measure length") (auto simp: le_imp_less_Suc length_dropWhile_le)

definition norm_addr :: "runtime \<Rightarrow> cell \<Rightarrow> string" where
  "norm_addr rt s = (if isna s then [] else collapse_ws (strip (str_cell rt s)))"

text \<open>
  The rate-limited geocoder is outside the program.  A call returns a location
  (latitude, longitude) or \<^verbatim>\<open>None\<close>; its answer may depend on the calls made before, so
  the model gives it the number of earlier calls next to the query.
\<close>

type_synonym geocoder = "nat \<Rightarrow> string \<Rightarrow> (pyfloat \<times> pyfloat) option"

text \<open>
  The state of the loop: the dictionary \<^verbatim>\<open>cache_map\<close>, the counter \<^verbatim>\<open>updated\<close>, and
  (to observe the live calls) the list of the queries sent to the geocoder with the
  answers, in order.
\<close>

record geo_state =
  cache_map :: "string \<rightharpoonup> (cell \<times> cell)"
  updated :: nat
  lookups :: "(string \<times> (pyfloat \<times> pyfloat) option) list"

text \<open>
  The body of the loop for one row, given the row's cells in the address, Latitude and
  Longitude columns; it returns the row's new Latitude and Longitude cells.
\<close>

definition geocode_row ::
  "runtime \<Rightarrow> geocoder \<Rightarrow> geo_state \<Rightarrow> cell \<times> cell \<times> cell \<Rightarrow> (cell \<times> cell) \<times> geo_state" where
  "geocode_row rt geocode st row =
     (case row of (addr_raw, la, lo) \<Rightarrow>
        let addr = norm_addr rt addr_raw
        in if addr = [] then ((la, lo), st)
           else if \<not> isna la \<and> \<not> isna lo then ((la, lo), st)
           else case cache_map st addr of
                  Some (clat, clng) \<Rightarrow> ((clat, clng), st)
                | None \<Rightarrow>
                    let loc = geocode (length (lookups st)) addr;
                        st1 = st\<lparr>lookups := lookups st @ [(addr, loc)]\<rparr>
                    in case loc of
                         Some (lat1, lng1) \<Rightarrow>
                           ((CFloat lat1, CFloat lng1),
                            st1\<lparr>cache_map := (cache_map st)(addr \<mapsto> (CFloat lat1, CFloat lng1)),
                                updated := updated st + 1\<rparr>)
                       | None \<Rightarrow> ((la, lo), st1))"

fun geocode_loop ::
  "runtime \<Rightarrow> geocoder \<Rightarrow> (cell \<times> cell \<times> cell) list \<Rightarrow> geo_state
     \<Rightarrow> (cell \<times> cell) list \<times> geo_state" where
  "geocode_loop rt geocode [] st = ([], st)"
| "geocode_loop rt geocode (row # rows) st =
     (let (v, st1) = geocode_row rt geocode st row;
          (vs, st2) = geocode_loop rt geocode rows st1
      in (v # vs, st2))"

text \<open>
  \<open>cache\<close> is the cache read from the cache file (empty when there is none).  The result
  carries the final state, whose \<open>cache_map\<close> is what the function saves at its end.
\<close>

definition geocode_addresses ::
  "runtime \<Rightarrow> geocoder \<Rightarrow> (string \<rightharpoonup> (cell \<times> cell)) \<Rightarrow> dataframe
     \<Rightarrow> py_error + (dataframe \<times> geo_state \<times> message list)" where
  "geocode_addresses rt geocode cache df =
     (if ADDRESS_COL \<notin> set (columns df) then Inl ValueError
      else
        let df1 = set_column df ''Latitude'' (get_or_na df ''Latitude'');
            df2 = set_column df1 ''Longitude'' (get_or_na df1 ''Longitude'');
            rows = zip (column df2 ADDRESS_COL)
                     (zip (column df2 ''Latitude'') (column df2 ''Longitude''));
            (vals, st) = geocode_loop rt geocode rows
                           \<lparr>cache_map = cache, updated = 0, lookups = []\<rparr>;
            df3 = set_column (set_column df2 ''Latitude'' (map fst vals))
                    ''Longitude'' (map snd vals)
        in Inr (df3, st, [GeocodingComplete (updated st)]))"

subsection \<open>Recategorizing\<close>

definition recategorize_categories :: "runtime \<Rightarrow> dataframe \<Rightarrow> dataframe \<times> message list" where
  "recategorize_categories rt df =
     (if CATEGORY_COL \<notin> set (columns df) then (df, [RecatColumnNotFound])
      else
        let backup_col = CATEGORY_COL @ '' (Original)'';
            df1 = (if backup_col \<notin> set (columns df)
                   then set_column df backup_col (column df CATEGORY_COL) else df);
            df2 = set_column df1 CATEGORY_COL
                    (map (\<lambda>x. CStr (classify_category rt x)) (column df1 CATEGORY_COL))
        in (df2, [RecatComplete]))"

subsection \<open>Main\<close>

text \<open>
  \<open>input\<close> is the sheet read from the input file, \<open>None\<close> when the file does not exist.
  The frame of the result is the one written to the output file.
\<close>

definition main ::
  "runtime \<Rightarrow> geocoder \<Rightarrow> (string \<rightharpoonup> (cell \<times> cell)) \<Rightarrow> dataframe option
     \<Rightarrow> py_error + (dataframe \<times> message list)" where
  "main rt geocode cache input =
     (case input of
        None \<Rightarrow> Inl FileNotFoundError
      | Some df \<Rightarrow>
          (case (if RUN_GEOCODING
                 then map_sum id (\<lambda>(d, st, ms). (d, ms)) (geocode_addresses rt geocode cache df)
                 else Inr (df, [SkippingGeocoding])) of
             Inl e \<Rightarrow> Inl e
           | Inr (df1, ms1) \<Rightarrow>
               let (df2, ms2) = (if RUN_RECAT then recategorize_categories rt df1
                                 else (df1, [SkippingRecat]))
               in Inr (df2, ms1 @ ms2 @ [Done])))"

section \<open>Notions for the statements\<close>

text \<open>A keyword written in lower case that neither starts nor ends with whitespace.\<close>

definition plain_keyword :: "string \<Rightarrow> bool" where
  "plain_keyword k = (k \<noteq> [] \<and> \<not> isspace (hd k) \<and> \<not> isspace (last k) \<and> lower k = k)"

text \<open>The expressions of the row loop that the statements below speak about.\<close>

definition row_lat :: "runtime \<Rightarrow> (string \<rightharpoonup> nat) \<Rightarrow> cell list \<Rightarrow> pyfloat option" where
  "row_lat rt hm row = to_float rt (grab rt hm row [''Latitude'', ''Lat''] CNone)"

definition row_lng :: "runtime \<Rightarrow> (string \<rightharpoonup> nat) \<Rightarrow> cell list \<Rightarrow> pyfloat option" where
  "row_lng rt hm row = to_float rt (grab rt hm row [''Longitude'', ''Lng'', ''Long''] CNone)"

definition row_id :: "runtime \<Rightarrow> (string \<rightharpoonup> nat) \<Rightarrow> cell list \<Rightarrow> cell" where
  "row_id rt hm row = grab rt hm row [''ID'', ''id''] CNone"

definition blank_id :: "runtime \<Rightarrow> cell \<Rightarrow> bool" where
  "blank_id rt c = (c = CNone \<or> strip (str_cell rt c) = [])"

definition row_reliability :: "runtime \<Rightarrow> (string \<rightharpoonup> nat) \<Rightarrow> cell list \<Rightarrow> string" where
  "row_reliability rt hm row = grab_text rt hm row [''Reliability Rate 1-10'', ''Reliability'']"

text \<open>What the loop does with a row: which of its three exits the row takes.\<close>

datatype verdict = NoCoords | BadLatLng | Kept

definition row_verdict :: "runtime \<Rightarrow> (string \<rightharpoonup> nat) \<Rightarrow> cell list \<Rightarrow> verdict" where
  "row_verdict rt hm row =
     (case (row_lat rt hm row, row_lng rt hm row) of
        (Some a, Some b) \<Rightarrow> if valid_latlng a b then Kept else BadLatLng
      | _ \<Rightarrow> NoCoords)"

text \<open>
  The cell an alias yields for a row: the cell of the column the header map gives for the
  normalised alias, when that column lies within the row and the cell is not \<^verbatim>\<open>None\<close>.
\<close>

definition alias_cell :: "runtime \<Rightarrow> (string \<rightharpoonup> nat) \<Rightarrow> cell list \<Rightarrow> string \<Rightarrow> cell option" where
  "alias_cell rt hm row n =
     (case hm (norm_text rt (CStr n)) of
        None \<Rightarrow> None
      | Some idx \<Rightarrow> if idx < length row \<and> row ! idx \<noteq> CNone then Some (row ! idx) else None)"

text \<open>
  No query is sent to the geocoder again after it was answered with a location: in a list
  of queries with their answers, an answered query does not occur later in the list.
\<close>

fun no_repeat_after_success :: "(string \<times> 'a option) list \<Rightarrow> bool" where
  "no_repeat_after_success [] = True"
| "no_repeat_after_success ((a, r) # rest) =
     ((r \<noteq> None \<longrightarrow> a \<notin> fst ` set rest) \<and> no_repeat_after_success rest)"

text \<open>Every query that was answered with a location is a key of the cache.\<close>

definition answered_cached :: "geo_state \<Rightarrow> bool" where
  "answered_cached st = (\<forall>(a, r) \<in> set (lookups st). r \<noteq> None \<longrightarrow> cache_map st a \<noteq> None)"

text \<open>
  The rows the geocoding loop goes through: for every row of the frame its cells in the
  address, Latitude and Longitude columns, the latter two filled with the missing value
  where the frame has no such column.
\<close>

definition frame_rows :: "dataframe \<Rightarrow> (cell \<times> cell \<times> cell) list" where
  "frame_rows df =
     zip (column df ADDRESS_COL) (zip (get_or_na df ''Latitude'') (get_or_na df ''Longitude''))"

section \<open>Values for the worked examples\<close>

text \<open>
  A stand-in for the two conversions of the runtime: it reads the one decimal text that
  the examples use and no other; none of the examples prints a finite float.
\<close>

definition example_runtime :: runtime where
  "example_runtime =
     \<lparr>float_of_str = (\<lambda>s. if s = ''39.29'' then Some (Finite (3929 / 100)) else None),
      str_of_finite = (\<lambda>q. ''0.0'')\<rparr>"

text \<open>
  A small sheet.  Its header row spells the headers with other case and spacing than the
  aliases, leaves the sixth header empty, and has both a Latitude and a Lat column.
\<close>

definition example_header :: "cell list" where
  "example_header =
     [CStr ''ID'', CStr ''Name  of Service'', CStr '' LATITUDE '', CStr ''Longitude'',
      CStr ''Reliability Rate 1-10'', CNone, CStr ''Lat'', CStr ''Legitimate place?'']"

definition example_hm :: "string \<rightharpoonup> nat" where
  "example_hm = header_map example_runtime (headers_of example_header)"

text \<open>
  Five data rows: a valid row without identifier, whose reliability cell is the text
  \<open>None\<close>; a row whose latitude is no number; a row whose latitude is in the Lat column
  only; a row with latitude 91; a row with int coordinates on the border of the range.
\<close>

definition example_row1 :: "cell list" where
  "example_row1 =
     [CNone, CStr ''A'', CFloat (Finite 39), CFloat (Finite (- 76)), CStr ''None'', CNone,
      CNone, CStr ''Yes'']"

definition example_row2 :: "cell list" where
  "example_row2 =
     [CStr ''x7'', CStr ''B'', CStr ''abc'', CFloat (Finite (- 76)), CInt 7, CNone, CNone,
      CNone]"

definition example_row3 :: "cell list" where
  "example_row3 =
     [CStr '' '', CStr ''C'', CNone, CFloat (Finite (- 76)), CStr ''nan'', CNone,
      CStr ''39.29'', CStr ''n'']"

definition example_row4 :: "cell list" where
  "example_row4 =
     [CStr '' '', CStr '' '', CFloat (Finite 91), CFloat (Finite (- 76)), CStr ''nan'', CNone,
      CFloat (Finite 1), CInt 0]"

definition example_row5 :: "cell list" where
  "example_row5 =
     [CNone, CStr '' '', CInt 90, CInt (- 180), CStr '' none '', CNone, CFloat (Finite 1),
      CInt 1]"

definition example_rows :: "cell list list" where
  "example_rows = [example_row1, example_row2, example_row3, example_row4, example_row5]"

text \<open>A row with an identifier of its own and valid coordinates.\<close>

definition example_row6 :: "cell list" where
  "example_row6 =
     [CStr ''x7'', CStr ''B'', CFloat (Finite 39), CFloat (Finite (- 76)), CInt 7, CNone, CNone,
      CNone]"

text \<open>A geocoder that knows one address, an empty state of the loop, and three frames.\<close>

definition example_geocoder :: geocoder where
  "example_geocoder n a = (if a = ''1 Main St'' then Some (Finite 39, Finite (- 76)) else None)"

definition example_state :: geo_state where
  "example_state = \<lparr>cache_map = Map.empty, updated = 0, lookups = []\<rparr>"

text \<open>Two rows without coordinates whose addresses differ in whitespace only.\<close>

definition example_batch :: "(cell \<times> cell \<times> cell) list" where
  "example_batch = [(CStr ''1 Main St'', CNone, CNone), (CStr '' 1  Main St '', CNone, CNone)]"

definition example_frame :: dataframe where
  "example_frame =
     \<lparr>nrows = 2,
      cols = [(''Address'', [CStr ''1 Main St'', CStr '' 1  Main St '']),
              (''Cateogry of Help'', [CStr ''Food pantry'', CStr ''Legal advocacy''])]\<rparr>"

definition example_frame_no_address :: dataframe where
  "example_frame_no_address =
     \<lparr>nrows = 1, cols = [(''Cateogry of Help'', [CStr ''Food pantry''])]\<rparr>"

definition example_frame_no_category :: dataframe where
  "example_frame_no_category =
     \<lparr>nrows = 1, cols = [(''Address'', [CNone])]\<rparr>"

section \<open>Properties of the classifier\<close>

lemma any_in_iff: "any_in s ks \<longleftrightarrow> (\<exists>k \<in> set ks. sublist k s)"
  by (simp add: any_in_def contains_def list_ex_iff)

text \<open>Stripping and lower-casing keep an occurrence of a keyword written in lower case
  that neither starts nor ends with whitespace.\<close>

lemma dropWhile_keeps_infix:
  "k \<noteq> [] \<Longrightarrow> \<not> P (hd k) \<Longrightarrow> \<exists>ps'. dropWhile P (ps @ k @ ss) = ps' @ k @ ss"
proof (induction ps)
  case Nil
  then show ?case by (cases k) (auto intro: exI[of _ "[]"])
next
  case (Cons p ps)
  then show ?case by (auto intro: exI[of _ "p # ps"])
qed

lemma sublist_strip:
  assumes "sublist k t" "k \<noteq> []" "\<not> isspace (hd k)" "\<not> isspace (last k)"
  shows "sublist k (strip t)"
proof -
  from assms(1) obtain ps ss where t: "t = ps @ k @ ss" by (auto simp: sublist_def)
  from dropWhile_keeps_infix[of k isspace ps ss] assms obtain ps' where
    1: "dropWhile isspace (ps @ k @ ss) = ps' @ k @ ss" by blast
  have "rev k \<noteq> []" "\<not> isspace (hd (rev k))" using assms by (simp_all add: hd_rev)
  from dropWhile_keeps_infix[of "rev k" isspace "rev ss" "rev ps'"] this obtain ss' where
    2: "dropWhile isspace (rev ss @ rev k @ rev ps') = ss' @ rev k @ rev ps'" by blast
  have "strip t = ps' @ k @ rev ss'" using t 1 2 by (simp add: strip_def)
  then show ?thesis by (auto simp: sublist_def)
qed

lemma sublist_lower: "sublist k t \<Longrightarrow> lower k = k \<Longrightarrow> sublist k (lower t)"
  unfolding lower_def sublist_def by (metis map_append)

lemma plain_keyword_normalised:
  "plain_keyword k \<Longrightarrow> contains t k \<Longrightarrow> contains (lower (strip t)) k"
  unfolding plain_keyword_def contains_def
  by (intro sublist_lower sublist_strip) auto

lemma veteran_keywords_plain: "list_all plain_keyword veteran_keywords"
  by code_simp

lemma advocacy_plain: "plain_keyword ''advocacy''"
  by code_simp

lemma classify_first_match:
  "\<not> isna text \<Longrightarrow>
   classify_category rt text = first_match (lower (strip (str_cell rt text))) priority_order"
  by (simp add: classify_category_def priority_order_def any_in_iff Let_def)

lemma classify_veteran:
  "\<not> isna text \<Longrightarrow> any_in (lower (strip (str_cell rt text))) veteran_keywords \<Longrightarrow>
   classify_category rt text = ''Veteran Services''"
  by (simp add: classify_category_def)

text \<open>
  Claim C2.  For every input that is not a missing value, the classifier returns the
  first category, in the order Veteran Services, Safety and Anti-Violence, Behavioral
  Health, Physical and General Health Care, Housing and Shelter, Food and Essential
  Needs, Financial and Access Support, Employment, Youth and Family, one of whose keywords
  occurs as a substring of the lower-cased trimmed input, and the fallback category when
  there is none.  In particular an input that contains a Veteran keyword and a Food
  keyword is classified as Veteran Services.
\<close>

theorem classify_priority_order:
  "\<not> isna text \<Longrightarrow>
   classify_category rt text = first_match (lower (strip (str_cell rt text))) priority_order
   \<and> (vk \<in> set veteran_keywords \<and> fk \<in> set food_keywords
        \<and> contains (str_cell rt text) vk \<and> contains (str_cell rt text) fk
      \<longrightarrow> classify_category rt text = ''Veteran Services'')"
proof (intro conjI impI)
  assume na: "\<not> isna text"
  show "classify_category rt text = first_match (lower (strip (str_cell rt text))) priority_order"
    using na by (rule classify_first_match)
  assume h: "vk \<in> set veteran_keywords \<and> fk \<in> set food_keywords
        \<and> contains (str_cell rt text) vk \<and> contains (str_cell rt text) fk"
  then have "plain_keyword vk" using veteran_keywords_plain by (simp add: list_all_iff)
  with h have "contains (lower (strip (str_cell rt text))) vk"
    by (simp add: plain_keyword_normalised)
  with h have "any_in (lower (strip (str_cell rt text))) veteran_keywords"
    by (auto simp: any_in_def list_ex_iff)
  with na show "classify_category rt text = ''Veteran Services''"
    by (rule classify_veteran)
qed

theorem classify_priority_order_witness:
  "classify_category example_runtime (CStr ''Food pantry for veterans'')
     = first_match (lower (strip ''Food pantry for veterans'')) priority_order
   \<and> classify_category example_runtime (CStr ''Food pantry for veterans'') = ''Veteran Services''"
proof -
  have a: "\<not> isna (CStr ''Food pantry for veterans'')" by simp
  have b: "''veteran'' \<in> set veteran_keywords \<and> ''pantry'' \<in> set food_keywords
        \<and> contains (str_cell example_runtime (CStr ''Food pantry for veterans'')) ''veteran''
        \<and> contains (str_cell example_runtime (CStr ''Food pantry for veterans'')) ''pantry''"
    by code_simp
  note c = classify_priority_order[OF a, of example_runtime "''veteran''" "''pantry''"]
  from c b
  have "classify_category example_runtime (CStr ''Food pantry for veterans'') = ''Veteran Services''"
    by blast
  moreover from c have "classify_category example_runtime (CStr ''Food pantry for veterans'')
     = first_match (lower (strip ''Food pantry for veterans'')) priority_order"
    unfolding str_cell.simps by (rule conjunct1)
  ultimately show ?thesis by (rule conjI[rotated])
qed

lemma dv_in_advocacy: "sublist ''dv'' ''advocacy''"
  by code_simp

text \<open>
  Claim C10.  Let \<open>s\<close> be the lower-cased trimmed form of an input that is not a missing
  value.  If \<open>s\<close> contains the two letters dv and none of the Veteran Services keywords,
  the classifier returns Safety and Anti-Violence.  Every input in which the word advocacy
  occurs has dv in \<open>s\<close>, so the keyword advocacy of the Youth and Family category never
  selects that category.
\<close>

theorem dv_selects_safety:
  "\<not> isna text \<Longrightarrow> s = lower (strip (str_cell rt text)) \<Longrightarrow>
   (contains s ''dv'' \<and> \<not> any_in s veteran_keywords
      \<longrightarrow> classify_category rt text = ''Safety & Anti-Violence'')
   \<and> (contains (str_cell rt text) ''advocacy'' \<or> contains s ''advocacy'' \<longrightarrow> contains s ''dv'')
   \<and> (contains s ''advocacy''
      \<longrightarrow> classify_category rt text \<noteq> ''Youth, Family, & General Support Services'')"
proof (intro conjI impI)
  assume na: "\<not> isna text" and s: "s = lower (strip (str_cell rt text))"
  have dv: "contains s ''dv'' \<Longrightarrow> any_in s safety_keywords"
    by (simp add: any_in_def safety_keywords_def)
  show "classify_category rt text = ''Safety & Anti-Violence''"
    if "contains s ''dv'' \<and> \<not> any_in s veteran_keywords"
    using that na s dv by (simp add: classify_category_def Let_def)
  have adv: "contains s ''dv''" if "contains s ''advocacy''"
    using that dv_in_advocacy unfolding contains_def by (rule sublist_order.order.trans[rotated])
  show "contains s ''dv''"
    if "contains (str_cell rt text) ''advocacy'' \<or> contains s ''advocacy''"
    using that adv plain_keyword_normalised[OF advocacy_plain, of "str_cell rt text"] s by blast
  show "classify_category rt text \<noteq> ''Youth, Family, & General Support Services''"
    if "contains s ''advocacy''"
    using dv[OF adv[OF that]] na s by (simp add: classify_category_def Let_def)
qed

theorem dv_selects_safety_witness:
  "classify_category example_runtime (CStr ''Legal Advocacy '') = ''Safety & Anti-Violence''
   \<and> classify_category example_runtime (CStr ''Legal Advocacy '')
       \<noteq> ''Youth, Family, & General Support Services''"
proof -
  have a: "\<not> isna (CStr ''Legal Advocacy '')" by simp
  have s: "lower (strip (str_cell example_runtime (CStr ''Legal Advocacy ''))) = ''legal advocacy''"
    by code_simp
  have b: "contains ''legal advocacy'' ''dv'' \<and> \<not> any_in ''legal advocacy'' veteran_keywords"
    by code_simp
  have c: "contains ''legal advocacy'' ''advocacy''" by code_simp
  from dv_selects_safety[OF a s[symmetric]] b c show ?thesis by simp
qed

section \<open>Properties of the ingestion\<close>

subsection \<open>The three exits of the row loop\<close>

lemma screen_none:
  "x = None \<or> y = None \<Longrightarrow>
   (case (x, y) of (Some la, Some lo) \<Rightarrow> f la lo | _ \<Rightarrow> g) = g"
  by (cases x; cases y) auto

lemma screen_some:
  "x = Some a \<Longrightarrow> y = Some b \<Longrightarrow>
   (case (x, y) of (Some la, Some lo) \<Rightarrow> f la lo | _ \<Rightarrow> g) = f a b"
  by simp

lemma process_row_no_coords:
  "row_lat rt hm row = None \<or> row_lng rt hm row = None \<Longrightarrow>
   process_row rt hm st row
     = (fst st, (snd st)\<lparr>skipped_no_coords := skipped_no_coords (snd st) + 1\<rparr>)"
  unfolding process_row_def row_lat_def row_lng_def Let_def
  by (rule screen_none)

lemma process_row_bad:
  "row_lat rt hm row = Some a \<Longrightarrow> row_lng rt hm row = Some b \<Longrightarrow> \<not> valid_latlng a b \<Longrightarrow>
   process_row rt hm st row = (fst st, (snd st)\<lparr>bad_latlng := bad_latlng (snd st) + 1\<rparr>)"
  unfolding process_row_def row_lat_def row_lng_def Let_def
  by (subst screen_some, assumption, assumption) (simp only: if_True simp_thms)

lemma process_row_kept:
  "row_lat rt hm row = Some a \<Longrightarrow> row_lng rt hm row = Some b \<Longrightarrow> valid_latlng a b \<Longrightarrow>
   \<exists>r. process_row rt hm st row = (fst st @ [r], snd st)
       \<and> lat r = a \<and> lng r = b
       \<and> rid r = (if blank_id rt (row_id rt hm row) then CInt (int (length (fst st)) + 1)
                  else row_id rt hm row)
       \<and> reliability r = (if row_reliability rt hm row \<notin> {[], ''nan'', ''none''}
                          then row_reliability rt hm row else ''na'')"
  unfolding process_row_def row_lat_def row_lng_def row_id_def blank_id_def
    row_reliability_def Let_def
  apply (subst screen_some, assumption, assumption)
  apply (simp only: if_False simp_thms)
  apply (rule exI, intro conjI, rule refl)
  apply (simp_all only: resource.simps)
  done

lemma row_verdict_cases:
  "row_verdict rt hm row = NoCoords \<longleftrightarrow> row_lat rt hm row = None \<or> row_lng rt hm row = None"
  "row_verdict rt hm row = BadLatLng \<longleftrightarrow>
     (\<exists>a b. row_lat rt hm row = Some a \<and> row_lng rt hm row = Some b \<and> \<not> valid_latlng a b)"
  "row_verdict rt hm row = Kept \<longleftrightarrow>
     (\<exists>a b. row_lat rt hm row = Some a \<and> row_lng rt hm row = Some b \<and> valid_latlng a b)"
  by (auto simp: row_verdict_def split: option.splits)

lemma process_rows_snoc:
  "process_rows rt hm (rows @ [row]) st = process_row rt hm (process_rows rt hm rows st) row"
  by (simp add: process_rows_def)

text \<open>The loop over all rows: the counters, and the coordinates of the output in row order.\<close>

lemma process_rows_totals:
  "skipped_no_coords (snd (process_rows rt hm rows st))
     = skipped_no_coords (snd st) + length (filter (\<lambda>r. row_verdict rt hm r = NoCoords) rows)
   \<and> bad_latlng (snd (process_rows rt hm rows st))
     = bad_latlng (snd st) + length (filter (\<lambda>r. row_verdict rt hm r = BadLatLng) rows)
   \<and> length (fst (process_rows rt hm rows st))
     = length (fst st) + length (filter (\<lambda>r. row_verdict rt hm r = Kept) rows)
   \<and> map (\<lambda>r. (Some (lat r), Some (lng r))) (fst (process_rows rt hm rows st))
     = map (\<lambda>r. (Some (lat r), Some (lng r))) (fst st)
       @ map (\<lambda>r. (row_lat rt hm r, row_lng rt hm r))
           (filter (\<lambda>r. row_verdict rt hm r = Kept) rows)"
proof (induction rows rule: rev_induct)
  case Nil
  show ?case by (simp add: process_rows_def)
next
  case (snoc row rows)
  let ?st = "process_rows rt hm rows st"
  show ?case
  proof (cases "row_verdict rt hm row")
    case NoCoords
    then have "process_row rt hm ?st row
        = (fst ?st, (snd ?st)\<lparr>skipped_no_coords := skipped_no_coords (snd ?st) + 1\<rparr>)"
      by (simp add: row_verdict_cases process_row_no_coords)
    with snoc NoCoords show ?thesis by (simp add: process_rows_snoc)
  next
    case BadLatLng
    then obtain a b where "row_lat rt hm row = Some a" "row_lng rt hm row = Some b"
      "\<not> valid_latlng a b" by (auto simp: row_verdict_cases)
    then have "process_row rt hm ?st row
        = (fst ?st, (snd ?st)\<lparr>bad_latlng := bad_latlng (snd ?st) + 1\<rparr>)"
      by (rule process_row_bad)
    with snoc BadLatLng show ?thesis by (simp add: process_rows_snoc)
  next
    case Kept
    then obtain a b where ab: "row_lat rt hm row = Some a" "row_lng rt hm row = Some b"
      "valid_latlng a b" by (auto simp: row_verdict_cases)
    from process_row_kept[OF ab, of ?st] obtain r where
      "process_row rt hm ?st row = (fst ?st @ [r], snd ?st)" "lat r = a" "lng r = b" by blast
    with snoc Kept ab show ?thesis by (simp add: process_rows_snoc)
  qed
qed

text \<open>When no kept row brings an identifier, the identifiers continue the count.\<close>

lemma process_rows_ids:
  "\<forall>row \<in> set rows. row_verdict rt hm row = Kept \<longrightarrow> blank_id rt (row_id rt hm row) \<Longrightarrow>
   map rid (fst (process_rows rt hm rows st))
     = map rid (fst st)
       @ map (\<lambda>i. CInt (int i))
           [length (fst st) + 1 ..< length (fst (process_rows rt hm rows st)) + 1]"
proof (induction rows rule: rev_induct)
  case Nil
  show ?case by (simp add: process_rows_def)
next
  case (snoc row rows)
  let ?st = "process_rows rt hm rows st"
  from snoc have IH: "map rid (fst ?st) = map rid (fst st)
       @ map (\<lambda>i. CInt (int i)) [length (fst st) + 1 ..< length (fst ?st) + 1]" by simp
  have len: "length (fst st) \<le> length (fst ?st)"
    using process_rows_totals[of rt hm rows st] by simp
  show ?case
  proof (cases "row_verdict rt hm row")
    case NoCoords
    then have "process_row rt hm ?st row
        = (fst ?st, (snd ?st)\<lparr>skipped_no_coords := skipped_no_coords (snd ?st) + 1\<rparr>)"
      by (simp add: row_verdict_cases process_row_no_coords)
    with IH show ?thesis by (simp add: process_rows_snoc)
  next
    case BadLatLng
    then obtain a b where "row_lat rt hm row = Some a" "row_lng rt hm row = Some b"
      "\<not> valid_latlng a b" by (auto simp: row_verdict_cases)
    then have "process_row rt hm ?st row
        = (fst ?st, (snd ?st)\<lparr>bad_latlng := bad_latlng (snd ?st) + 1\<rparr>)"
      by (rule process_row_bad)
    with IH show ?thesis by (simp add: process_rows_snoc)
  next
    case Kept
    then obtain a b where ab: "row_lat rt hm row = Some a" "row_lng rt hm row = Some b"
      "valid_latlng a b" by (auto simp: row_verdict_cases)
    from Kept snoc.prems have blank: "blank_id rt (row_id rt hm row)" by simp
    from process_row_kept[OF ab, of ?st] blank obtain r where
      r: "process_row rt hm ?st row = (fst ?st @ [r], snd ?st)"
         "rid r = CInt (int (length (fst ?st)) + 1)" by auto
    have "[length (fst st) + 1 ..< length (fst ?st) + 1 + 1]
        = [length (fst st) + 1 ..< length (fst ?st) + 1] @ [length (fst ?st) + 1]"
      using len by simp
    with IH r show ?thesis by (simp add: process_rows_snoc)
  qed
qed

lemma load_unfold:
  "load_resources_from_xlsx rt (Some (header_row, rows)) =
     (let st = process_rows rt (header_map rt (headers_of header_row)) rows
                 ([], (initial_diag True)\<lparr>headers := headers_of header_row\<rparr>)
      in (fst st, (snd st)\<lparr>parsed_rows := length (fst st),
                    sample_row := (case fst st of [] \<Rightarrow> None | r # _ \<Rightarrow> Some r)\<rparr>))"
  by (simp add: load_resources_from_xlsx_def Let_def)

lemma load_totals:
  fixes rt header_row rows
  defines "hm \<equiv> header_map rt (headers_of header_row)"
  defines "out \<equiv> load_resources_from_xlsx rt (Some (header_row, rows))"
  shows "skipped_no_coords (snd out) = length (filter (\<lambda>r. row_verdict rt hm r = NoCoords) rows)"
    and "bad_latlng (snd out) = length (filter (\<lambda>r. row_verdict rt hm r = BadLatLng) rows)"
    and "length (fst out) = length (filter (\<lambda>r. row_verdict rt hm r = Kept) rows)"
    and "parsed_rows (snd out) = length (fst out)"
    and "map (\<lambda>r. (Some (lat r), Some (lng r))) (fst out)
         = map (\<lambda>r. (row_lat rt hm r, row_lng rt hm r))
             (filter (\<lambda>r. row_verdict rt hm r = Kept) rows)"
  using process_rows_totals[of rt hm rows "([], (initial_diag True)\<lparr>headers := headers_of header_row\<rparr>)"]
  unfolding out_def load_unfold hm_def
  by (simp_all add: Let_def initial_diag_def)

lemma load_ids:
  fixes rt header_row rows
  defines "hm \<equiv> header_map rt (headers_of header_row)"
  assumes "\<forall>row \<in> set rows. row_verdict rt hm row = Kept \<longrightarrow> blank_id rt (row_id rt hm row)"
  shows "map rid (fst (load_resources_from_xlsx rt (Some (header_row, rows))))
         = map (\<lambda>i. CInt (int i))
             [1 ..< length (filter (\<lambda>r. row_verdict rt hm r = Kept) rows) + 1]"
proof -
  let ?st0 = "([], (initial_diag True)\<lparr>headers := headers_of header_row\<rparr>)"
  have "length (fst (process_rows rt hm rows ?st0))
        = length (filter (\<lambda>r. row_verdict rt hm r = Kept) rows)"
    using process_rows_totals[of rt hm rows ?st0] by simp
  with process_rows_ids[OF assms(2), of ?st0] show ?thesis
    unfolding load_unfold hm_def by (simp add: Let_def)
qed

lemma to_float_absent:
  "to_float rt CNone = None"
  "to_float rt (CFloat NaN) = None"
  "to_float rt (COther t) = None"
  "float_of_str rt s = None \<Longrightarrow> to_float rt (CStr s) = None"
  by (simp_all add: to_float_def isnan_def)

lemma valid_latlng_finite:
  "valid_latlng (Finite p) (Finite q) \<longleftrightarrow> - 90 \<le> p \<and> p \<le> 90 \<and> - 180 \<le> q \<and> q \<le> 180"
  by (simp add: valid_latlng_def)

subsection \<open>The example sheet\<close>

lemma example_norms:
  "norm_text example_runtime (CStr ''ID'') = ''id''"
  "norm_text example_runtime (CStr ''id'') = ''id''"
  "norm_text example_runtime (CStr ''Name  of Service'') = ''name of service''"
  "norm_text example_runtime (CStr '' LATITUDE '') = ''latitude''"
  "norm_text example_runtime (CStr ''Latitude'') = ''latitude''"
  "norm_text example_runtime (CStr ''Lat'') = ''lat''"
  "norm_text example_runtime (CStr ''Longitude'') = ''longitude''"
  "norm_text example_runtime (CStr ''Lng'') = ''lng''"
  "norm_text example_runtime (CStr ''Long'') = ''long''"
  "norm_text example_runtime (CStr ''Reliability Rate 1-10'') = ''reliability rate 1-10''"
  "norm_text example_runtime (CStr ''Reliability'') = ''reliability''"
  "norm_text example_runtime (CStr ''Legitimate place?'') = ''legitimate place?''"
  "norm_text example_runtime (CStr []) = []"
  by code_simp+

lemma example_hm_eq:
  "example_hm
     = [''id'' \<mapsto> 0, ''name of service'' \<mapsto> 1, ''latitude'' \<mapsto> 2, ''longitude'' \<mapsto> 3,
        ''reliability rate 1-10'' \<mapsto> 4, [] \<mapsto> 5, ''lat'' \<mapsto> 6, ''legitimate place?'' \<mapsto> 7]"
  by (simp add: example_hm_def header_map_def headers_of_def example_header_def
      enumerate_eq_zip upt_rec example_norms eval_nat_numeral)

lemma example_float_of_int:
  "float_of_int 90 = Some (Finite 90)" "float_of_int (- 180) = Some (Finite (- 180))"
  by code_simp+

lemma example_parse:
  "float_of_str example_runtime ''39.29'' = Some (Finite (3929 / 100))"
  "float_of_str example_runtime ''abc'' = None"
  by (simp_all add: example_runtime_def)

lemma example_lat:
  "row_lat example_runtime example_hm example_row1 = Some (Finite 39)"
  "row_lat example_runtime example_hm example_row2 = None"
  "row_lat example_runtime example_hm example_row3 = Some (Finite (3929 / 100))"
  "row_lat example_runtime example_hm example_row4 = Some (Finite 91)"
  "row_lat example_runtime example_hm example_row5 = Some (Finite 90)"
  "row_lat example_runtime example_hm example_row6 = Some (Finite 39)"
  unfolding example_hm_eq
  by (simp_all add: row_lat_def example_row1_def example_row2_def example_row3_def
      example_row4_def example_row5_def example_row6_def example_norms to_float_def isnan_def
      example_parse example_float_of_int)

lemma example_lng:
  "row_lng example_runtime example_hm example_row1 = Some (Finite (- 76))"
  "row_lng example_runtime example_hm example_row2 = Some (Finite (- 76))"
  "row_lng example_runtime example_hm example_row3 = Some (Finite (- 76))"
  "row_lng example_runtime example_hm example_row4 = Some (Finite (- 76))"
  "row_lng example_runtime example_hm example_row5 = Some (Finite (- 180))"
  "row_lng example_runtime example_hm example_row6 = Some (Finite (- 76))"
  unfolding example_hm_eq
  by (simp_all add: row_lng_def example_row1_def example_row2_def example_row3_def
      example_row4_def example_row5_def example_row6_def example_norms to_float_def isnan_def
      example_float_of_int)

lemma example_verdicts:
  "row_verdict example_runtime example_hm example_row1 = Kept"
  "row_verdict example_runtime example_hm example_row2 = NoCoords"
  "row_verdict example_runtime example_hm example_row3 = Kept"
  "row_verdict example_runtime example_hm example_row4 = BadLatLng"
  "row_verdict example_runtime example_hm example_row5 = Kept"
  "row_verdict example_runtime example_hm example_row6 = Kept"
  by (simp_all add: row_verdict_def example_lat example_lng valid_latlng_def)

lemma example_ids:
  "row_id example_runtime example_hm example_row1 = CNone"
  "row_id example_runtime example_hm example_row3 = CStr '' ''"
  "row_id example_runtime example_hm example_row5 = CNone"
  "row_id example_runtime example_hm example_row6 = CStr ''x7''"
  unfolding example_hm_eq
  by (simp_all add: row_id_def example_row1_def example_row3_def example_row5_def
      example_row6_def example_norms)

lemma example_blank:
  "blank_id example_runtime CNone" "blank_id example_runtime (CStr '' '')"
  "\<not> blank_id example_runtime (CStr ''x7'')"
  by (simp_all add: blank_id_def strip_def isspace_def)

lemma example_reliability:
  "row_reliability example_runtime example_hm example_row1 = ''None''"
  "row_reliability example_runtime example_hm example_row5 = ''none''"
  unfolding example_hm_eq
  by (simp_all add: row_reliability_def grab_text_def example_row1_def example_row5_def
      example_norms strip_def isspace_def)

subsection \<open>Coordinates\<close>

text \<open>
  Claim C1.  For every row of the ingestion loop: when the converted latitude or the
  converted longitude is absent, the row is left out and the counter of rows skipped for
  want of coordinates grows by one, nothing else changing; when both are present and lie
  outside the range of latitudes from -90 to 90 and longitudes from -180 to 180, the row
  is left out and the counter of bad coordinates grows by one; otherwise the row is
  appended to the output with these coordinates.  A missing cell, a NaN, an object that is
  no number and a text that does not parse are absent after conversion.  Over a whole
  sheet the two counters and the output are the counts and the coordinates of the rows of
  each kind, in row order.
\<close>

theorem coordinate_screening:
  "(row_lat rt hm row = None \<or> row_lng rt hm row = None \<longrightarrow>
      process_row rt hm (rs, d) row
        = (rs, d\<lparr>skipped_no_coords := skipped_no_coords d + 1\<rparr>))
   \<and> (row_lat rt hm row = Some a \<and> row_lng rt hm row = Some b \<and> \<not> valid_latlng a b \<longrightarrow>
      process_row rt hm (rs, d) row = (rs, d\<lparr>bad_latlng := bad_latlng d + 1\<rparr>))
   \<and> (row_lat rt hm row = Some a \<and> row_lng rt hm row = Some b \<and> valid_latlng a b \<longrightarrow>
      (\<exists>r. process_row rt hm (rs, d) row = (rs @ [r], d) \<and> lat r = a \<and> lng r = b))
   \<and> to_float rt CNone = None \<and> to_float rt (CFloat NaN) = None
   \<and> to_float rt (COther t) = None
   \<and> (float_of_str rt s = None \<longrightarrow> to_float rt (CStr s) = None)
   \<and> (valid_latlng (Finite p) (Finite q) \<longleftrightarrow> - 90 \<le> p \<and> p \<le> 90 \<and> - 180 \<le> q \<and> q \<le> 180)
   \<and> skipped_no_coords (snd (load_resources_from_xlsx rt (Some (header_row, rows))))
       = length (filter (\<lambda>r. row_verdict rt (header_map rt (headers_of header_row)) r = NoCoords)
           rows)
   \<and> bad_latlng (snd (load_resources_from_xlsx rt (Some (header_row, rows))))
       = length (filter (\<lambda>r. row_verdict rt (header_map rt (headers_of header_row)) r = BadLatLng)
           rows)
   \<and> map (\<lambda>r. (Some (lat r), Some (lng r)))
         (fst (load_resources_from_xlsx rt (Some (header_row, rows))))
       = map (\<lambda>r. (row_lat rt (header_map rt (headers_of header_row)) r,
                    row_lng rt (header_map rt (headers_of header_row)) r))
           (filter (\<lambda>r. row_verdict rt (header_map rt (headers_of header_row)) r = Kept) rows)"
proof (intro conjI impI)
  show "process_row rt hm (rs, d) row = (rs, d\<lparr>skipped_no_coords := skipped_no_coords d + 1\<rparr>)"
    if "row_lat rt hm row = None \<or> row_lng rt hm row = None"
    using process_row_no_coords[OF that, of "(rs, d)"] by simp
  show "process_row rt hm (rs, d) row = (rs, d\<lparr>bad_latlng := bad_latlng d + 1\<rparr>)"
    if "row_lat rt hm row = Some a \<and> row_lng rt hm row = Some b \<and> \<not> valid_latlng a b"
    using process_row_bad[of rt hm row a b "(rs, d)"] that by simp
  show "\<exists>r. process_row rt hm (rs, d) row = (rs @ [r], d) \<and> lat r = a \<and> lng r = b"
    if "row_lat rt hm row = Some a \<and> row_lng rt hm row = Some b \<and> valid_latlng a b"
    using process_row_kept[of rt hm row a b "(rs, d)"] that by auto
  show "to_float rt (CStr s) = None" if "float_of_str rt s = None"
    using that by (rule to_float_absent)
qed (simp_all only: to_float_absent valid_latlng_finite load_totals)

theorem coordinate_screening_witness:
  "process_row example_runtime example_hm ([], initial_diag True) example_row2
     = ([], (initial_diag True)\<lparr>skipped_no_coords := skipped_no_coords (initial_diag True) + 1\<rparr>)
   \<and> process_row example_runtime example_hm ([], initial_diag True) example_row4
     = ([], (initial_diag True)\<lparr>bad_latlng := bad_latlng (initial_diag True) + 1\<rparr>)
   \<and> (\<exists>r. process_row example_runtime example_hm ([], initial_diag True) example_row1
             = ([] @ [r], initial_diag True) \<and> lat r = Finite 39 \<and> lng r = Finite (- 76))
   \<and> skipped_no_coords
        (snd (load_resources_from_xlsx example_runtime (Some (example_header, example_rows)))) = 1
   \<and> bad_latlng
        (snd (load_resources_from_xlsx example_runtime (Some (example_header, example_rows)))) = 1"
proof -
  note t = coordinate_screening[where rt = example_runtime and hm = example_hm
      and rs = "[]" and d = "initial_diag True"
      and header_row = example_header and rows = example_rows]
  have v: "valid_latlng (Finite 39) (Finite (- 76))" "\<not> valid_latlng (Finite 91) (Finite (- 76))"
    by (simp_all add: valid_latlng_def)
  have 1: "process_row example_runtime example_hm ([], initial_diag True) example_row2
     = ([], (initial_diag True)\<lparr>skipped_no_coords := skipped_no_coords (initial_diag True) + 1\<rparr>)"
    using t[where row = example_row2] example_lat(2) by blast
  have 2: "process_row example_runtime example_hm ([], initial_diag True) example_row4
     = ([], (initial_diag True)\<lparr>bad_latlng := bad_latlng (initial_diag True) + 1\<rparr>)"
    using t[where row = example_row4 and a = "Finite 91" and b = "Finite (- 76)"]
      example_lat(4) example_lng(4) v(2) by blast
  have 3: "\<exists>r. process_row example_runtime example_hm ([], initial_diag True) example_row1
             = ([] @ [r], initial_diag True) \<and> lat r = Finite 39 \<and> lng r = Finite (- 76)"
    using t[where row = example_row1 and a = "Finite 39" and b = "Finite (- 76)"]
      example_lat(1) example_lng(1) v(1) by blast
  have 4: "skipped_no_coords
        (snd (load_resources_from_xlsx example_runtime (Some (example_header, example_rows)))) = 1"
    "bad_latlng
        (snd (load_resources_from_xlsx example_runtime (Some (example_header, example_rows)))) = 1"
    using t[where row = example_row1]
    by (simp_all add: example_hm_def[symmetric] example_rows_def example_verdicts)
  from 1 2 3 4 show ?thesis by blast
qed

subsection \<open>Identifiers\<close>

text \<open>
  Claim C4.  A kept row whose identifier cell is not blank keeps that cell as its
  identifier, whatever its type; a kept row whose identifier cell is blank gets the number
  of records kept so far, itself included.  So when no kept row of a sheet brings an
  identifier, the identifiers of the output are 1 to N in row order, N being the number of
  kept rows.
\<close>

theorem identifier_assignment:
  "(row_verdict rt hm row = Kept \<longrightarrow>
      (\<exists>r. process_row rt hm (rs, d) row = (rs @ [r], d)
          \<and> rid r = (if blank_id rt (row_id rt hm row) then CInt (int (length rs) + 1)
                     else row_id rt hm row)))
   \<and> ((\<forall>row \<in> set rows. row_verdict rt (header_map rt (headers_of header_row)) row = Kept
          \<longrightarrow> blank_id rt (row_id rt (header_map rt (headers_of header_row)) row)) \<longrightarrow>
       map rid (fst (load_resources_from_xlsx rt (Some (header_row, rows))))
         = map (\<lambda>i. CInt (int i))
             [1 ..< length (filter
                (\<lambda>r. row_verdict rt (header_map rt (headers_of header_row)) r = Kept) rows) + 1])"
proof (intro conjI impI)
  assume "row_verdict rt hm row = Kept"
  then obtain a b where ab: "row_lat rt hm row = Some a" "row_lng rt hm row = Some b"
    "valid_latlng a b" by (auto simp: row_verdict_cases)
  from process_row_kept[OF ab, of "(rs, d)"]
  show "\<exists>r. process_row rt hm (rs, d) row = (rs @ [r], d)
          \<and> rid r = (if blank_id rt (row_id rt hm row) then CInt (int (length rs) + 1)
                     else row_id rt hm row)"
    by auto
next
  assume "\<forall>row \<in> set rows. row_verdict rt (header_map rt (headers_of header_row)) row = Kept
          \<longrightarrow> blank_id rt (row_id rt (header_map rt (headers_of header_row)) row)"
  then show "map rid (fst (load_resources_from_xlsx rt (Some (header_row, rows))))
         = map (\<lambda>i. CInt (int i))
             [1 ..< length (filter
                (\<lambda>r. row_verdict rt (header_map rt (headers_of header_row)) r = Kept) rows) + 1]"
    by (rule load_ids)
qed

theorem identifier_assignment_witness:
  "(\<exists>r. process_row example_runtime example_hm ([], initial_diag True) example_row1
           = ([] @ [r], initial_diag True) \<and> rid r = CInt 1)
   \<and> (\<exists>r. process_row example_runtime example_hm ([], initial_diag True) example_row6
           = ([] @ [r], initial_diag True) \<and> rid r = CStr ''x7'')
   \<and> map rid (fst (load_resources_from_xlsx example_runtime (Some (example_header, example_rows))))
       = [CInt 1, CInt 2, CInt 3]"
proof -
  note t = identifier_assignment[where rt = example_runtime and hm = example_hm
      and rs = "[]" and d = "initial_diag True"
      and header_row = example_header and rows = example_rows]
  have 1: "\<exists>r. process_row example_runtime example_hm ([], initial_diag True) example_row1
           = ([] @ [r], initial_diag True) \<and> rid r = CInt 1"
    using t[where row = example_row1] example_verdicts(1) example_ids(1) example_blank(1)
    by simp
  have 2: "\<exists>r. process_row example_runtime example_hm ([], initial_diag True) example_row6
           = ([] @ [r], initial_diag True) \<and> rid r = CStr ''x7''"
    using t[where row = example_row6] example_verdicts(6) example_ids(4) example_blank(3)
    by simp
  have h: "\<forall>row \<in> set example_rows. row_verdict example_runtime example_hm row = Kept
          \<longrightarrow> blank_id example_runtime (row_id example_runtime example_hm row)"
    by (simp add: example_rows_def example_verdicts example_ids example_blank)
  have 3: "map rid (fst (load_resources_from_xlsx example_runtime
             (Some (example_header, example_rows)))) = [CInt 1, CInt 2, CInt 3]"
    using t[where row = example_row1] h
    by (simp add: example_hm_def[symmetric] example_rows_def example_verdicts upt_rec)
  from 1 2 3 show ?thesis by blast
qed

subsection \<open>Boolean flags\<close>

lemma flag_examples:
  "map (\<lambda>t. lower (strip t)) [''Yes'', ''y'', ''TRUE'', ''1''] = [''yes'', ''y'', ''true'', ''1'']"
  "map (\<lambda>t. lower (strip t)) [''No'', ''n'', ''FALSE'', ''0''] = [''no'', ''n'', ''false'', ''0'']"
  "map (\<lambda>t. lower (strip t)) ['''', ''maybe'', '' TRUE ''] = ['''', ''maybe'', ''true'']"
  by code_simp+

text \<open>
  Claim C8.  The flag parser is a total function with three results.  \<^verbatim>\<open>None\<close> gives
  unknown.  Any other value gives true exactly when its text, trimmed and lower-cased, is
  one of yes, y, true, 1; false exactly when it is one of no, n, false, 0; and unknown in
  every other case, the empty text included.
\<close>

theorem to_bool_flag_tokens:
  "to_bool_flag rt CNone = None
   \<and> (v \<noteq> CNone \<longrightarrow>
        (to_bool_flag rt v = Some True
           \<longleftrightarrow> lower (strip (str_cell rt v)) \<in> {''yes'', ''y'', ''true'', ''1''})
      \<and> (to_bool_flag rt v = Some False
           \<longleftrightarrow> lower (strip (str_cell rt v)) \<in> {''no'', ''n'', ''false'', ''0''})
      \<and> (to_bool_flag rt v = None
           \<longleftrightarrow> lower (strip (str_cell rt v))
                 \<notin> {''yes'', ''y'', ''true'', ''1'', ''no'', ''n'', ''false'', ''0''}))
   \<and> map (to_bool_flag rt) [CStr ''Yes'', CStr ''y'', CStr ''TRUE'', CStr ''1'']
       = [Some True, Some True, Some True, Some True]
   \<and> map (to_bool_flag rt) [CStr ''No'', CStr ''n'', CStr ''FALSE'', CStr ''0'']
       = [Some False, Some False, Some False, Some False]
   \<and> map (to_bool_flag rt) [CStr '''', CStr ''maybe'', CNone] = [None, None, None]"
proof (intro conjI impI)
  show "to_bool_flag rt CNone = None" by (simp add: to_bool_flag_def)
  show "map (to_bool_flag rt) [CStr ''Yes'', CStr ''y'', CStr ''TRUE'', CStr ''1'']
       = [Some True, Some True, Some True, Some True]"
    using flag_examples(1) by (simp add: to_bool_flag_def)
  show "map (to_bool_flag rt) [CStr ''No'', CStr ''n'', CStr ''FALSE'', CStr ''0'']
       = [Some False, Some False, Some False, Some False]"
    using flag_examples(2) by (simp add: to_bool_flag_def)
  show "map (to_bool_flag rt) [CStr '''', CStr ''maybe'', CNone] = [None, None, None]"
    using flag_examples(3) by (simp add: to_bool_flag_def)
next
  assume v: "v \<noteq> CNone"
  define s where "s = lower (strip (str_cell rt v))"
  have f: "to_bool_flag rt v =
      (if s \<in> {''yes'', ''y'', ''true'', ''1''} then Some True
       else if s \<in> {''no'', ''n'', ''false'', ''0''} then Some False else None)"
    using v unfolding to_bool_flag_def s_def Let_def by (simp only: if_False)
  show "to_bool_flag rt v = Some True
           \<longleftrightarrow> lower (strip (str_cell rt v)) \<in> {''yes'', ''y'', ''true'', ''1''}"
    unfolding f s_def[symmetric] by simp
  show "to_bool_flag rt v = Some False
           \<longleftrightarrow> lower (strip (str_cell rt v)) \<in> {''no'', ''n'', ''false'', ''0''}"
    unfolding f s_def[symmetric] by auto
  show "to_bool_flag rt v = None
           \<longleftrightarrow> lower (strip (str_cell rt v))
                 \<notin> {''yes'', ''y'', ''true'', ''1'', ''no'', ''n'', ''false'', ''0''}"
    unfolding f s_def[symmetric] by auto
qed

theorem to_bool_flag_tokens_witness:
  "to_bool_flag example_runtime (CStr '' TRUE '') = Some True
   \<and> to_bool_flag example_runtime (CInt 0) = Some False
   \<and> to_bool_flag example_runtime (CStr ''maybe'') = None"
proof -
  have a: "CStr '' TRUE '' \<noteq> CNone" "CInt 0 \<noteq> CNone" "CStr ''maybe'' \<noteq> CNone" by simp_all
  have s: "lower (strip (str_cell example_runtime (CStr '' TRUE ''))) = ''true''"
    "lower (strip (str_cell example_runtime (CInt 0))) = ''0''"
    "lower (strip (str_cell example_runtime (CStr ''maybe''))) = ''maybe''"
    by code_simp+
  have 1: "to_bool_flag example_runtime (CStr '' TRUE '') = Some True"
    using to_bool_flag_tokens[of example_runtime "CStr '' TRUE ''"] a(1) s(1) by simp
  have 2: "to_bool_flag example_runtime (CInt 0) = Some False"
    using to_bool_flag_tokens[of example_runtime "CInt 0"] a(2) s(2) by simp
  have 3: "to_bool_flag example_runtime (CStr ''maybe'') = None"
    using to_bool_flag_tokens[of example_runtime "CStr ''maybe''"] a(3) s(3) by simp
  from 1 2 3 show ?thesis by blast
qed

subsection \<open>Reliability\<close>

lemma load_single:
  "load_resources_from_xlsx rt (Some (header_row, [row]))
     = (let st = process_row rt (header_map rt (headers_of header_row))
                   ([], (initial_diag True)\<lparr>headers := headers_of header_row\<rparr>) row
        in (fst st, (snd st)\<lparr>parsed_rows := length (fst st),
                      sample_row := (case fst st of [] \<Rightarrow> None | r # _ \<Rightarrow> Some r)\<rparr>))"
  unfolding load_unfold by (simp add: process_rows_def)

text \<open>
  Claim C6.  The claim has the reliability text compared with \<open>nan\<close> and \<open>none\<close>
  without regard to case, so that a cell with the text \<open>None\<close> gives \<open>na\<close>.  The
  program compares the trimmed text as it is: on the example sheet with its first data
  row, whose reliability cell holds \<open>None\<close> (in lower case \<open>none\<close>), the record of the
  kept row has the reliability \<open>None\<close>, not \<open>na\<close>.
\<close>

theorem reliability_none_kept:
  "lower (strip ''None'') = ''none''
   \<and> map reliability
       (fst (load_resources_from_xlsx example_runtime (Some (example_header, [example_row1]))))
     = [''None'']"
proof
  show "lower (strip ''None'') = ''none''" by code_simp
  obtain r where r: "process_row example_runtime example_hm
        ([], (initial_diag True)\<lparr>headers := headers_of example_header\<rparr>) example_row1
        = ([] @ [r], (initial_diag True)\<lparr>headers := headers_of example_header\<rparr>)"
      "reliability r = ''None''"
    using process_row_kept[OF example_lat(1) example_lng(1),
        of "([], (initial_diag True)\<lparr>headers := headers_of example_header\<rparr>)"]
    by (auto simp: valid_latlng_def example_reliability)
  show "map reliability
       (fst (load_resources_from_xlsx example_runtime (Some (example_header, [example_row1]))))
     = [''None'']"
    unfolding load_single example_hm_def[symmetric] using r by (simp add: Let_def)
qed

subsection \<open>Header resolution\<close>

text \<open>Lower-casing keeps whitespace whitespace, and commutes with trimming.\<close>

lemma of_char_lower_char:
  "(of_char (lower_char c) :: nat) =
     (if (65 \<le> (of_char c :: nat) \<and> (of_char c :: nat) \<le> 90)
         \<or> (192 \<le> (of_char c :: nat) \<and> (of_char c :: nat) \<le> 222 \<and> (of_char c :: nat) \<noteq> 215)
      then of_char c + 32 else of_char c)"
  by (simp add: lower_char_def Let_def of_char_of)

lemma isspace_lower_char: "isspace (lower_char c) = isspace c"
  unfolding isspace_def of_char_lower_char by auto

lemma lower_dropWhile: "dropWhile isspace (lower s) = lower (dropWhile isspace s)"
  by (induction s) (simp_all add: lower_def isspace_lower_char)

lemma lower_rev: "lower (rev s) = rev (lower s)"
  by (simp add: lower_def rev_map)

lemma lower_strip: "lower (strip s) = strip (lower s)"
  by (simp add: strip_def lower_dropWhile lower_rev[symmetric])

text \<open>Splitting into words ignores leading and trailing whitespace.\<close>

lemma split_acc_leading: "split_acc [] (dropWhile isspace s) = split_acc [] s"
  by (induction s) simp_all

lemma split_acc_trailing1: "isspace c \<Longrightarrow> split_acc w (s @ [c]) = split_acc w s"
  by (induction s arbitrary: w) simp_all

lemma split_acc_trailing:
  "\<forall>c \<in> set ws. isspace c \<Longrightarrow> split_acc w (s @ ws) = split_acc w s"
proof (induction ws rule: rev_induct)
  case Nil
  show ?case by simp
next
  case (snoc c ws)
  have "split_acc w (s @ ws @ [c]) = split_acc w ((s @ ws) @ [c])" by simp
  also have "\<dots> = split_acc w (s @ ws)" using snoc.prems by (intro split_acc_trailing1) simp
  finally show ?case using snoc by simp
qed

lemma rstrip_decompose:
  "s = rev (dropWhile P (rev s)) @ rev (takeWhile P (rev s))"
  by (metis rev_append rev_rev_ident takeWhile_dropWhile_id)

lemma split_strip: "split (strip s) = split s"
proof -
  let ?t = "dropWhile isspace s"
  have "split_acc [] ?t = split_acc []
          (rev (dropWhile isspace (rev ?t)) @ rev (takeWhile isspace (rev ?t)))"
    using rstrip_decompose[of ?t isspace] by simp
  also have "\<dots> = split_acc [] (rev (dropWhile isspace (rev ?t)))"
    by (rule split_acc_trailing) (auto dest: set_takeWhileD)
  finally show ?thesis by (simp add: split_def strip_def split_acc_leading)
qed

lemma norm_text_words: "norm_text rt (CStr a) = join '' '' (split (lower a))"
  by (simp add: norm_text_def lower_strip split_strip)

text \<open>The header map: the last header of a normalised name has it.\<close>

lemma header_map_snoc:
  "header_map rt (hs @ [h]) = (header_map rt hs)(norm_text rt h \<mapsto> length hs)"
  by (simp add: header_map_def enumerate_append_eq)

lemma header_map_Some_iff:
  "header_map rt hs k = Some i \<longleftrightarrow>
     i < length hs \<and> norm_text rt (hs ! i) = k
     \<and> (\<forall>j. i < j \<and> j < length hs \<longrightarrow> norm_text rt (hs ! j) \<noteq> k)"
proof (induction hs rule: rev_induct)
  case Nil
  show ?case by (simp add: header_map_def)
next
  case (snoc h hs)
  show ?case
  proof (cases "norm_text rt h = k")
    case True
    have "(i < length (hs @ [h]) \<and> norm_text rt ((hs @ [h]) ! i) = k
       \<and> (\<forall>j. i < j \<and> j < length (hs @ [h]) \<longrightarrow> norm_text rt ((hs @ [h]) ! j) \<noteq> k))
       \<longleftrightarrow> i = length hs"
    proof
      assume a: "i < length (hs @ [h]) \<and> norm_text rt ((hs @ [h]) ! i) = k
         \<and> (\<forall>j. i < j \<and> j < length (hs @ [h]) \<longrightarrow> norm_text rt ((hs @ [h]) ! j) \<noteq> k)"
      show "i = length hs"
      proof (rule ccontr)
        assume "i \<noteq> length hs"
        with a have "i < length hs" by simp
        moreover from a have "length hs < length (hs @ [h]) \<and> i < length hs
            \<longrightarrow> norm_text rt ((hs @ [h]) ! length hs) \<noteq> k" by blast
        ultimately have "norm_text rt ((hs @ [h]) ! length hs) \<noteq> k" by simp
        with True show False by simp
      qed
    next
      assume "i = length hs"
      with True show "i < length (hs @ [h]) \<and> norm_text rt ((hs @ [h]) ! i) = k
         \<and> (\<forall>j. i < j \<and> j < length (hs @ [h]) \<longrightarrow> norm_text rt ((hs @ [h]) ! j) \<noteq> k)"
        by auto
    qed
    with True show ?thesis by (auto simp: header_map_snoc)
  next
    case False
    have "(i < length (hs @ [h]) \<and> norm_text rt ((hs @ [h]) ! i) = k
       \<and> (\<forall>j. i < j \<and> j < length (hs @ [h]) \<longrightarrow> norm_text rt ((hs @ [h]) ! j) \<noteq> k))
       \<longleftrightarrow> (i < length hs \<and> norm_text rt (hs ! i) = k
       \<and> (\<forall>j. i < j \<and> j < length hs \<longrightarrow> norm_text rt (hs ! j) \<noteq> k))"
      using False by (auto simp: nth_append less_Suc_eq)
    with False snoc show ?thesis by (simp add: header_map_snoc)
  qed
qed

lemma header_map_None_iff:
  "header_map rt hs k = None \<longleftrightarrow> (\<forall>h \<in> set hs. norm_text rt h \<noteq> k)"
  by (induction hs rule: rev_induct) (auto simp: header_map_def[of rt "[]"] header_map_snoc)

text \<open>The cell of the first alias that yields one, or the default.\<close>

lemma grab_none:
  "\<forall>n \<in> set names. alias_cell rt hm row n = None \<Longrightarrow> grab rt hm row names d = d"
  by (induction names) (auto simp: alias_cell_def Let_def split: option.splits if_splits)

lemma grab_first:
  "\<forall>m \<in> set pre. alias_cell rt hm row m = None \<Longrightarrow> alias_cell rt hm row n = Some v \<Longrightarrow>
   grab rt hm row (pre @ n # post) d = v"
  by (induction pre) (auto simp: alias_cell_def Let_def split: option.splits if_splits)

text \<open>
  Claim C7, as the program has it.  In the example sheet the alias Latitude matches the
  third header, whose cell in the third data row is empty (\<^verbatim>\<open>None\<close>); the lookup with
  the aliases Latitude and Lat does not stop at that cell but goes on to the alias Lat and
  returns the cell of its column.
\<close>

theorem first_alias_counterexample:
  "header_map example_runtime (headers_of example_header)
       (norm_text example_runtime (CStr ''Latitude'')) = Some 2
   \<and> example_row3 ! 2 = CNone
   \<and> grab example_runtime (header_map example_runtime (headers_of example_header)) example_row3
       [''Latitude'', ''Lat''] CNone = CStr ''39.29''"
  unfolding example_hm_def[symmetric] example_hm_eq
  by (simp add: example_norms example_row3_def)

text \<open>
  Claim C7, amended.  A header and an alias match when their normalised names are equal,
  the normalised name of a text being its words in lower case joined by single spaces;
  of several headers with one normalised name the last counts.  The lookup returns the
  cell of the first alias, in the order given, that matches a header whose column lies
  within the row and holds a cell other than \<^verbatim>\<open>None\<close> (an empty text is such a cell);
  an alias whose cell is \<^verbatim>\<open>None\<close> is passed over like an alias that matches no header.
  When no alias yields a cell the lookup returns the default.
\<close>

theorem header_resolution:
  "norm_text rt (CStr a) = join '' '' (split (lower a))
   \<and> (header_map rt hs k = Some i \<longleftrightarrow>
        i < length hs \<and> norm_text rt (hs ! i) = k
        \<and> (\<forall>j. i < j \<and> j < length hs \<longrightarrow> norm_text rt (hs ! j) \<noteq> k))
   \<and> (header_map rt hs k = None \<longleftrightarrow> (\<forall>h \<in> set hs. norm_text rt h \<noteq> k))
   \<and> (alias_cell rt hm row n = Some v \<longleftrightarrow>
        (\<exists>idx. hm (norm_text rt (CStr n)) = Some idx \<and> idx < length row
               \<and> row ! idx = v \<and> v \<noteq> CNone))
   \<and> ((\<forall>m \<in> set pre. alias_cell rt hm row m = None) \<and> alias_cell rt hm row n = Some v
        \<longrightarrow> grab rt hm row (pre @ n # post) d = v)
   \<and> ((\<forall>m \<in> set names. alias_cell rt hm row m = None) \<longrightarrow> grab rt hm row names d = d)"
proof (intro conjI impI)
  show "norm_text rt (CStr a) = join '' '' (split (lower a))" by (rule norm_text_words)
  show "header_map rt hs k = Some i \<longleftrightarrow>
        i < length hs \<and> norm_text rt (hs ! i) = k
        \<and> (\<forall>j. i < j \<and> j < length hs \<longrightarrow> norm_text rt (hs ! j) \<noteq> k)"
    by (rule header_map_Some_iff)
  show "header_map rt hs k = None \<longleftrightarrow> (\<forall>h \<in> set hs. norm_text rt h \<noteq> k)"
    by (rule header_map_None_iff)
  show "alias_cell rt hm row n = Some v \<longleftrightarrow>
        (\<exists>idx. hm (norm_text rt (CStr n)) = Some idx \<and> idx < length row
               \<and> row ! idx = v \<and> v \<noteq> CNone)"
    by (auto simp: alias_cell_def split: option.splits)
  show "grab rt hm row (pre @ n # post) d = v"
    if "(\<forall>m \<in> set pre. alias_cell rt hm row m = None) \<and> alias_cell rt hm row n = Some v"
    using that grab_first by blast
  show "grab rt hm row names d = d" if "\<forall>m \<in> set names. alias_cell rt hm row m = None"
    using that by (rule grab_none)
qed

theorem header_resolution_witness:
  "grab example_runtime example_hm example_row3 ([''Latitude''] @ ''Lat'' # []) CNone
     = CStr ''39.29''
   \<and> grab example_runtime example_hm example_row2 [''Lat''] CNone = CNone
   \<and> example_hm ''latitude'' = Some 2"
proof -
  have a: "alias_cell example_runtime example_hm example_row3 ''Latitude'' = None"
    "alias_cell example_runtime example_hm example_row3 ''Lat'' = Some (CStr ''39.29'')"
    "alias_cell example_runtime example_hm example_row2 ''Lat'' = None"
    unfolding example_hm_eq
    by (simp_all add: alias_cell_def example_norms example_row3_def example_row2_def)
  have 1: "grab example_runtime example_hm example_row3 ([''Latitude''] @ ''Lat'' # []) CNone
     = CStr ''39.29''"
    using header_resolution[where rt = example_runtime and hm = example_hm
        and row = example_row3 and pre = "[''Latitude'']" and n = "''Lat''"
        and v = "CStr ''39.29''" and post = "[]" and d = CNone] a(1,2)
    by (simp del: grab.simps append.simps)
  have 2: "grab example_runtime example_hm example_row2 [''Lat''] CNone = CNone"
    using header_resolution[where rt = example_runtime and hm = example_hm
        and row = example_row2 and names = "[''Lat'']" and d = CNone] a(3)
    by (simp del: grab.simps)
  have 3: "example_hm ''latitude'' = Some 2"
    by (simp add: example_hm_eq)
  from 1 2 3 show ?thesis by blast
qed

section \<open>Properties of the preparation script\<close>

subsection \<open>Columns\<close>

lemma columns_set_column: "set (columns (set_column df c vs)) = insert c (set (columns df))"
  by (simp add: columns_def set_column_def dom_update)

lemma map_of_set_column:
  "map_of (cols (set_column df c vs)) = (map_of (cols df))(c \<mapsto> vs)"
  by (simp add: set_column_def update_conv')

lemma in_columns_iff: "c \<in> set (columns df) \<longleftrightarrow> map_of (cols df) c \<noteq> None"
  by (simp add: columns_def map_of_eq_None_iff)

lemma backup_col_neq: "CATEGORY_COL @ '' (Original)'' \<noteq> CATEGORY_COL"
  by simp

subsection \<open>Recategorizing\<close>

lemma recategorize_missing:
  "CATEGORY_COL \<notin> set (columns df) \<Longrightarrow>
   recategorize_categories rt df = (df, [RecatColumnNotFound])"
  by (simp add: recategorize_categories_def)

lemma recategorize_backup:
  "CATEGORY_COL \<in> set (columns df) \<Longrightarrow>
   map_of (cols (fst (recategorize_categories rt df))) (CATEGORY_COL @ '' (Original)'')
     = (if CATEGORY_COL @ '' (Original)'' \<in> set (columns df)
        then map_of (cols df) (CATEGORY_COL @ '' (Original)'')
        else map_of (cols df) CATEGORY_COL)"
  using backup_col_neq
  by (auto simp: recategorize_categories_def Let_def map_of_set_column column_def
      in_columns_iff)

lemma recategorize_columns:
  "CATEGORY_COL \<in> set (columns df) \<Longrightarrow>
   set (columns (fst (recategorize_categories rt df)))
     = insert (CATEGORY_COL @ '' (Original)'') (set (columns df))"
  by (auto simp: recategorize_categories_def Let_def columns_set_column)

text \<open>
  Claim C9.  Recategorizing leaves a backup column that already exists as it is, and
  creates it, with the values of the category column, only when the frame has none.  So a
  second run on the result of a first run leaves the backup column as the first run left
  it.
\<close>

theorem recategorize_backup_once:
  "(CATEGORY_COL @ '' (Original)'' \<in> set (columns df) \<longrightarrow>
      map_of (cols (fst (recategorize_categories rt df))) (CATEGORY_COL @ '' (Original)'')
        = map_of (cols df) (CATEGORY_COL @ '' (Original)''))
   \<and> (CATEGORY_COL @ '' (Original)'' \<notin> set (columns df) \<and> CATEGORY_COL \<in> set (columns df) \<longrightarrow>
      map_of (cols (fst (recategorize_categories rt df))) (CATEGORY_COL @ '' (Original)'')
        = map_of (cols df) CATEGORY_COL)
   \<and> map_of (cols (fst (recategorize_categories rt (fst (recategorize_categories rt df)))))
         (CATEGORY_COL @ '' (Original)'')
       = map_of (cols (fst (recategorize_categories rt df))) (CATEGORY_COL @ '' (Original)'')"
proof (intro conjI impI)
  show "map_of (cols (fst (recategorize_categories rt df))) (CATEGORY_COL @ '' (Original)'')
        = map_of (cols df) (CATEGORY_COL @ '' (Original)'')"
    if "CATEGORY_COL @ '' (Original)'' \<in> set (columns df)"
  proof (cases "CATEGORY_COL \<in> set (columns df)")
    case True
    with that show ?thesis by (simp only: recategorize_backup if_True)
  next
    case False
    then show ?thesis by (simp add: recategorize_missing)
  qed
  show "map_of (cols (fst (recategorize_categories rt df))) (CATEGORY_COL @ '' (Original)'')
        = map_of (cols df) CATEGORY_COL"
    if "CATEGORY_COL @ '' (Original)'' \<notin> set (columns df) \<and> CATEGORY_COL \<in> set (columns df)"
    using that by (simp only: recategorize_backup if_False)
  show "map_of (cols (fst (recategorize_categories rt (fst (recategorize_categories rt df)))))
         (CATEGORY_COL @ '' (Original)'')
       = map_of (cols (fst (recategorize_categories rt df))) (CATEGORY_COL @ '' (Original)'')"
  proof (cases "CATEGORY_COL \<in> set (columns df)")
    case True
    let ?df1 = "fst (recategorize_categories rt df)"
    from True have c: "CATEGORY_COL \<in> set (columns ?df1)"
      and b: "CATEGORY_COL @ '' (Original)'' \<in> set (columns ?df1)"
      by (simp_all only: recategorize_columns insert_iff simp_thms)
    from recategorize_backup[OF c, of rt] b show ?thesis by (simp only: if_True)
  next
    case False
    then show ?thesis by (simp add: recategorize_missing)
  qed
qed

theorem recategorize_backup_once_witness:
  "map_of (cols (fst (recategorize_categories example_runtime example_frame)))
       (CATEGORY_COL @ '' (Original)'')
     = Some [CStr ''Food pantry'', CStr ''Legal advocacy'']
   \<and> map_of (cols (fst (recategorize_categories example_runtime
         (fst (recategorize_categories example_runtime example_frame)))))
       (CATEGORY_COL @ '' (Original)'')
     = Some [CStr ''Food pantry'', CStr ''Legal advocacy'']"
proof -
  have h: "CATEGORY_COL @ '' (Original)'' \<notin> set (columns example_frame)
      \<and> CATEGORY_COL \<in> set (columns example_frame)"
    by (simp add: columns_def example_frame_def CATEGORY_COL_def)
  have c: "map_of (cols example_frame) CATEGORY_COL
      = Some [CStr ''Food pantry'', CStr ''Legal advocacy'']"
    by (simp add: example_frame_def CATEGORY_COL_def)
  note t = recategorize_backup_once[of example_frame example_runtime]
  from t h c have 1: "map_of (cols (fst (recategorize_categories example_runtime example_frame)))
       (CATEGORY_COL @ '' (Original)'') = Some [CStr ''Food pantry'', CStr ''Legal advocacy'']"
    by simp
  from t 1 show ?thesis by simp
qed

subsection \<open>A missing column\<close>

lemma geocode_addresses_missing:
  "ADDRESS_COL \<notin> set (columns df) \<Longrightarrow> geocode_addresses rt g cache df = Inl ValueError"
  by (simp add: geocode_addresses_def)

lemma geocode_addresses_present:
  "ADDRESS_COL \<in> set (columns df) \<Longrightarrow>
   \<exists>df1 st. geocode_addresses rt g cache df = Inr (df1, st, [GeocodingComplete (updated st)])
      \<and> set (columns df1) = insert ''Latitude'' (insert ''Longitude'' (set (columns df)))"
  by (auto simp: geocode_addresses_def Let_def columns_set_column split: prod.splits)

text \<open>
  Claim C3, as the program has it.  On a frame without the address column the script
  stops with the \<^verbatim>\<open>ValueError\<close> that the geocoding step raises: nothing is
  recategorized and nothing is written, although the frame has the category column.
\<close>

theorem missing_address_counterexample:
  "CATEGORY_COL \<in> set (columns example_frame_no_address)
   \<and> main example_runtime example_geocoder Map.empty (Some example_frame_no_address)
       = Inl ValueError"
  by (simp add: main_def RUN_GEOCODING_def geocode_addresses_def columns_def
      example_frame_no_address_def ADDRESS_COL_def CATEGORY_COL_def)

text \<open>
  Claim C3, amended.  When the category column is missing (and the address column is
  there), recategorization is skipped with a warning and the script goes on: it writes
  the geocoded frame.  When the address column is missing, geocoding raises
  \<^verbatim>\<open>ValueError\<close> and the script ends with that error.
\<close>

theorem missing_column_handling:
  "(ADDRESS_COL \<notin> set (columns df) \<longrightarrow>
      geocode_addresses rt g cache df = Inl ValueError
      \<and> main rt g cache (Some df) = Inl ValueError)
   \<and> (CATEGORY_COL \<notin> set (columns df) \<longrightarrow>
      recategorize_categories rt df = (df, [RecatColumnNotFound]))
   \<and> (ADDRESS_COL \<in> set (columns df) \<and> CATEGORY_COL \<notin> set (columns df) \<longrightarrow>
      (\<exists>df1 st. geocode_addresses rt g cache df
                  = Inr (df1, st, [GeocodingComplete (updated st)])
         \<and> main rt g cache (Some df)
             = Inr (df1, [GeocodingComplete (updated st), RecatColumnNotFound, Done])))"
proof (intro conjI impI)
  show "geocode_addresses rt g cache df = Inl ValueError" if "ADDRESS_COL \<notin> set (columns df)"
    using that by (rule geocode_addresses_missing)
  show "main rt g cache (Some df) = Inl ValueError" if "ADDRESS_COL \<notin> set (columns df)"
    using that by (simp add: main_def RUN_GEOCODING_def geocode_addresses_missing)
  show "recategorize_categories rt df = (df, [RecatColumnNotFound])"
    if "CATEGORY_COL \<notin> set (columns df)"
    using that by (rule recategorize_missing)
  assume h: "ADDRESS_COL \<in> set (columns df) \<and> CATEGORY_COL \<notin> set (columns df)"
  then obtain df1 st where
    g: "geocode_addresses rt g cache df = Inr (df1, st, [GeocodingComplete (updated st)])"
    and c: "set (columns df1) = insert ''Latitude'' (insert ''Longitude'' (set (columns df)))"
    using geocode_addresses_present[of df rt g cache] by blast
  from c h have "CATEGORY_COL \<notin> set (columns df1)" by (simp add: CATEGORY_COL_def)
  then have "recategorize_categories rt df1 = (df1, [RecatColumnNotFound])"
    by (rule recategorize_missing)
  with g have "main rt g cache (Some df)
      = Inr (df1, [GeocodingComplete (updated st), RecatColumnNotFound, Done])"
    by (simp add: main_def RUN_GEOCODING_def RUN_RECAT_def)
  with g show "\<exists>df1 st. geocode_addresses rt g cache df
                  = Inr (df1, st, [GeocodingComplete (updated st)])
         \<and> main rt g cache (Some df)
             = Inr (df1, [GeocodingComplete (updated st), RecatColumnNotFound, Done])"
    by blast
qed

theorem missing_column_handling_witness:
  "main example_runtime example_geocoder Map.empty (Some example_frame_no_address)
     = Inl ValueError
   \<and> (\<exists>df1 (st :: geo_state).
         main example_runtime example_geocoder Map.empty (Some example_frame_no_category)
         = Inr (df1, [GeocodingComplete (updated st), RecatColumnNotFound, Done]))"
proof -
  have a: "ADDRESS_COL \<notin> set (columns example_frame_no_address)"
    by (simp add: columns_def example_frame_no_address_def ADDRESS_COL_def)
  have b: "ADDRESS_COL \<in> set (columns example_frame_no_category)
      \<and> CATEGORY_COL \<notin> set (columns example_frame_no_category)"
    by (simp add: columns_def example_frame_no_category_def ADDRESS_COL_def CATEGORY_COL_def)
  have 1: "main example_runtime example_geocoder Map.empty (Some example_frame_no_address)
     = Inl ValueError"
    using missing_column_handling[of example_frame_no_address example_runtime
        example_geocoder Map.empty] a by blast
  have 2: "\<exists>df1 (st :: geo_state). main example_runtime example_geocoder Map.empty
         (Some example_frame_no_category)
         = Inr (df1, [GeocodingComplete (updated st), RecatColumnNotFound, Done])"
    using missing_column_handling[of example_frame_no_category example_runtime
        example_geocoder Map.empty] b by blast
  from 1 2 show ?thesis by blast
qed

subsection \<open>Geocoding\<close>

lemma geocode_row_empty:
  "norm_addr rt addr_raw = [] \<Longrightarrow> geocode_row rt g st (addr_raw, la, lo) = ((la, lo), st)"
  by (simp add: geocode_row_def)

lemma geocode_row_filled:
  "norm_addr rt addr_raw \<noteq> [] \<Longrightarrow> \<not> isna la \<Longrightarrow> \<not> isna lo \<Longrightarrow>
   geocode_row rt g st (addr_raw, la, lo) = ((la, lo), st)"
  by (simp add: geocode_row_def)

lemma geocode_row_cached:
  "norm_addr rt addr_raw \<noteq> [] \<Longrightarrow> isna la \<or> isna lo \<Longrightarrow>
   cache_map st (norm_addr rt addr_raw) = Some c \<Longrightarrow>
   geocode_row rt g st (addr_raw, la, lo) = (c, st)"
  by (cases c) (auto simp: geocode_row_def)

lemma geocode_row_live:
  "norm_addr rt addr_raw \<noteq> [] \<Longrightarrow> isna la \<or> isna lo \<Longrightarrow>
   cache_map st (norm_addr rt addr_raw) = None \<Longrightarrow>
   geocode_row rt g st (addr_raw, la, lo) =
     (case g (length (lookups st)) (norm_addr rt addr_raw) of
        Some (p, q) \<Rightarrow>
          ((CFloat p, CFloat q),
           st\<lparr>lookups := lookups st @ [(norm_addr rt addr_raw, Some (p, q))],
              cache_map := (cache_map st)(norm_addr rt addr_raw \<mapsto> (CFloat p, CFloat q)),
              updated := updated st + 1\<rparr>)
      | None \<Rightarrow> ((la, lo), st\<lparr>lookups := lookups st @ [(norm_addr rt addr_raw, None)]\<rparr>))"
  by (auto simp: geocode_row_def Let_def split: option.splits)

text \<open>An entry of the cache stays as it is to the end of the loop.\<close>

lemma geocode_row_cache_persist:
  "cache_map st a = Some v \<Longrightarrow> cache_map (snd (geocode_row rt g st row)) a = Some v"
  by (cases row) (auto simp: geocode_row_def Let_def split: option.splits)

lemma geocode_loop_snd:
  "snd (geocode_loop rt g (row # rows) st)
     = snd (geocode_loop rt g rows (snd (geocode_row rt g st row)))"
  by (simp add: split_beta Let_def)

lemma geocode_loop_cache_persist:
  "cache_map st a = Some v \<Longrightarrow> cache_map (snd (geocode_loop rt g rows st)) a = Some v"
proof (induction rows arbitrary: st)
  case Nil
  then show ?case by simp
next
  case (Cons row rows)
  from Cons.prems have "cache_map (snd (geocode_row rt g st row)) a = Some v"
    by (rule geocode_row_cache_persist)
  then show ?case unfolding geocode_loop_snd by (rule Cons.IH)
qed

text \<open>A query answered with a location is not sent again.\<close>

lemma no_repeat_snoc:
  "no_repeat_after_success (L @ [(a, r)]) \<longleftrightarrow>
     no_repeat_after_success L \<and> (\<forall>(a', r') \<in> set L. r' \<noteq> None \<longrightarrow> a' \<noteq> a)"
  by (induction L) auto

lemma geocode_row_invariant:
  assumes "answered_cached st" "no_repeat_after_success (lookups st)"
  shows "answered_cached (snd (geocode_row rt g st row))
         \<and> no_repeat_after_success (lookups (snd (geocode_row rt g st row)))"
proof (cases row)
  case (fields addr_raw la lo)
  let ?addr = "norm_addr rt addr_raw"
  consider (same) "geocode_row rt g st row = (fst (geocode_row rt g st row), st)"
    | (live) "?addr \<noteq> []" "isna la \<or> isna lo" "cache_map st ?addr = None"
    unfolding fields
    by (cases "?addr = []"; cases "\<not> isna la \<and> \<not> isna lo"; cases "cache_map st ?addr")
       (auto simp: geocode_row_empty geocode_row_filled geocode_row_cached)
  then show ?thesis
  proof cases
    case same
    then have "snd (geocode_row rt g st row) = st" by (metis snd_conv)
    with assms show ?thesis by simp
  next
    case live
    from assms(1) live(3) have fresh: "\<forall>(a', r') \<in> set (lookups st). r' \<noteq> None \<longrightarrow> a' \<noteq> ?addr"
      unfolding answered_cached_def by fastforce
    show ?thesis
    proof (cases "g (length (lookups st)) ?addr")
      case None
      with live have "snd (geocode_row rt g st row) = st\<lparr>lookups := lookups st @ [(?addr, None)]\<rparr>"
        unfolding fields by (simp add: geocode_row_live)
      with assms fresh show ?thesis
        by (auto simp: answered_cached_def no_repeat_snoc)
    next
      case (Some loc)
      obtain p q where loc: "loc = (p, q)" by (cases loc)
      with Some live have "snd (geocode_row rt g st row)
          = st\<lparr>lookups := lookups st @ [(?addr, Some (p, q))],
               cache_map := (cache_map st)(?addr \<mapsto> (CFloat p, CFloat q)),
               updated := updated st + 1\<rparr>"
        unfolding fields by (simp add: geocode_row_live)
      with assms fresh show ?thesis
        by (auto simp: answered_cached_def no_repeat_snoc)
    qed
  qed
qed

lemma geocode_loop_invariant:
  "answered_cached st \<Longrightarrow> no_repeat_after_success (lookups st) \<Longrightarrow>
   answered_cached (snd (geocode_loop rt g rows st))
   \<and> no_repeat_after_success (lookups (snd (geocode_loop rt g rows st)))"
proof (induction rows arbitrary: st)
  case Nil
  then show ?case by simp
next
  case (Cons row rows)
  from geocode_row_invariant[OF Cons.prems, of rt g row]
  show ?case unfolding geocode_loop_snd by (intro Cons.IH) simp_all
qed

lemma geocode_addresses_no_repeat:
  "geocode_addresses rt g cache df = Inr (df1, stf, ms) \<Longrightarrow>
   no_repeat_after_success (lookups stf)"
proof -
  assume a: "geocode_addresses rt g cache df = Inr (df1, stf, ms)"
  let ?st0 = "\<lparr>cache_map = cache, updated = 0, lookups = []\<rparr>"
  have i: "answered_cached ?st0" "no_repeat_after_success (lookups ?st0)"
    by (simp_all add: answered_cached_def)
  from a have "\<exists>rows vals. geocode_loop rt g rows ?st0 = (vals, stf)"
    unfolding geocode_addresses_def Let_def
    by (simp split: if_splits prod.splits) blast
  then obtain rows where "stf = snd (geocode_loop rt g rows ?st0)"
    by (metis snd_conv)
  with geocode_loop_invariant[OF i, of rt g] show ?thesis by simp
qed

text \<open>The loop goes through the rows in order, each with the state the rows before left.\<close>

lemma geocode_loop_append:
  "geocode_loop rt g (xs @ ys) st
     = (fst (geocode_loop rt g xs st)
          @ fst (geocode_loop rt g ys (snd (geocode_loop rt g xs st))),
        snd (geocode_loop rt g ys (snd (geocode_loop rt g xs st))))"
  by (induction xs arbitrary: st) (simp_all add: split_beta Let_def)

lemma geocode_loop_length: "length (fst (geocode_loop rt g rows st)) = length rows"
  by (induction rows arbitrary: st) (simp_all add: split_beta Let_def)

lemma geocode_loop_nth:
  assumes "i < length rows"
  shows "fst (geocode_loop rt g rows st) ! i
         = fst (geocode_row rt g (snd (geocode_loop rt g (take i rows) st)) (rows ! i))"
proof -
  have "rows = take i rows @ (rows ! i # drop (Suc i) rows)"
    using assms by (simp add: id_take_nth_drop[symmetric])
  then have "fst (geocode_loop rt g rows st) ! i
      = (fst (geocode_loop rt g (take i rows) st)
           @ fst (geocode_loop rt g (rows ! i # drop (Suc i) rows)
                    (snd (geocode_loop rt g (take i rows) st)))) ! i"
    by (metis geocode_loop_append fst_conv)
  also have "\<dots> = fst (geocode_loop rt g (rows ! i # drop (Suc i) rows)
                         (snd (geocode_loop rt g (take i rows) st))) ! 0"
    using assms by (simp add: nth_append geocode_loop_length)
  also have "\<dots> = fst (geocode_row rt g (snd (geocode_loop rt g (take i rows) st)) (rows ! i))"
    by (simp add: split_beta Let_def)
  finally show ?thesis .
qed

lemma geocode_loop_take_Suc:
  assumes "i < length rows"
  shows "snd (geocode_loop rt g (take (Suc i) rows) st)
         = snd (geocode_row rt g (snd (geocode_loop rt g (take i rows) st)) (rows ! i))"
proof -
  have "take (Suc i) rows = take i rows @ [rows ! i]"
    using assms by (rule take_Suc_conv_app_nth)
  then show ?thesis by (simp add: geocode_loop_append split_beta Let_def)
qed

text \<open>The pass runs the loop on the rows of the frame and writes its results back.\<close>

lemma column_set_column:
  "column (set_column df c vs) c' = (if c' = c then vs else column df c')"
  by (simp add: column_def map_of_set_column)

lemma nrows_set_column: "nrows (set_column df c vs) = nrows df"
  by (simp add: set_column_def)

lemma get_or_na_set_column:
  "get_or_na (set_column df c vs) c' = (if c' = c then vs else get_or_na df c')"
  by (simp add: get_or_na_def map_of_set_column nrows_set_column split: option.splits)

lemma geocode_addresses_pass:
  assumes "ADDRESS_COL \<in> set (columns df)"
  shows "\<exists>df3. geocode_addresses rt g cache df
            = Inr (df3,
                   snd (geocode_loop rt g (frame_rows df)
                          \<lparr>cache_map = cache, updated = 0, lookups = []\<rparr>),
                   [GeocodingComplete (updated (snd (geocode_loop rt g (frame_rows df)
                          \<lparr>cache_map = cache, updated = 0, lookups = []\<rparr>)))])
          \<and> column df3 ''Latitude''
              = map fst (fst (geocode_loop rt g (frame_rows df)
                          \<lparr>cache_map = cache, updated = 0, lookups = []\<rparr>))
          \<and> column df3 ''Longitude''
              = map snd (fst (geocode_loop rt g (frame_rows df)
                          \<lparr>cache_map = cache, updated = 0, lookups = []\<rparr>))
          \<and> (\<forall>c. c \<noteq> ''Latitude'' \<and> c \<noteq> ''Longitude''
                 \<longrightarrow> map_of (cols df3) c = map_of (cols df) c)"
  using assms
  by (simp add: geocode_addresses_def Let_def split_beta frame_rows_def column_set_column
      get_or_na_set_column map_of_set_column ADDRESS_COL_def)

text \<open>
  Claim C5.  For a row of the geocoding pass, in this order: when the normalised address
  is empty nothing is looked up and the row and the state stay as they are; else when both
  coordinates are filled the row is passed over; else when the cache has the normalised
  address the coordinates are taken from it, without a live lookup; else one live lookup
  is made, and when it succeeds the coordinates are written to the row and to the cache
  at once, so that a later row of the batch with the same normalised address and without
  coordinates takes them from the cache and no lookup is made for it.  The loop does this
  for the rows in their order: the result for the row at a position is what the step gives
  on that row in the state left by the rows before it, which is also how the state moves
  on.  The pass runs the loop on the rows of the frame with the cache it was given, writes
  the results into the Latitude and Longitude columns and leaves the other columns.  In
  the list of the live lookups of a pass, no address occurs again after a lookup of it
  that succeeded.
\<close>

theorem geocode_lookup_order:
  "geocode_row rt g st (addr_raw, la, lo) = (v', st') \<Longrightarrow> addr = norm_addr rt addr_raw \<Longrightarrow>
   (addr = [] \<longrightarrow> v' = (la, lo) \<and> st' = st)
   \<and> (addr \<noteq> [] \<and> \<not> isna la \<and> \<not> isna lo \<longrightarrow> v' = (la, lo) \<and> st' = st)
   \<and> (addr \<noteq> [] \<and> (isna la \<or> isna lo) \<and> cache_map st addr = Some c \<longrightarrow> v' = c \<and> st' = st)
   \<and> (addr \<noteq> [] \<and> (isna la \<or> isna lo) \<and> cache_map st addr = None \<longrightarrow>
        lookups st' = lookups st @ [(addr, g (length (lookups st)) addr)]
      \<and> (g (length (lookups st)) addr = Some (p, q) \<longrightarrow>
           v' = (CFloat p, CFloat q)
         \<and> cache_map st' = (cache_map st)(addr \<mapsto> (CFloat p, CFloat q))
         \<and> updated st' = updated st + 1
         \<and> (norm_addr rt a2 = addr \<and> (isna la2 \<or> isna lo2) \<longrightarrow>
              geocode_row rt g (snd (geocode_loop rt g mid st')) (a2, la2, lo2)
                = ((CFloat p, CFloat q), snd (geocode_loop rt g mid st'))))
      \<and> (g (length (lookups st)) addr = None \<longrightarrow>
           v' = (la, lo) \<and> cache_map st' = cache_map st \<and> updated st' = updated st))
   \<and> geocode_loop rt g [] s0 = ([], s0)
   \<and> length (fst (geocode_loop rt g rows s0)) = length rows
   \<and> (i < length rows \<longrightarrow>
        fst (geocode_loop rt g rows s0) ! i
          = fst (geocode_row rt g (snd (geocode_loop rt g (take i rows) s0)) (rows ! i))
      \<and> snd (geocode_loop rt g (take (Suc i) rows) s0)
          = snd (geocode_row rt g (snd (geocode_loop rt g (take i rows) s0)) (rows ! i)))
   \<and> (ADDRESS_COL \<in> set (columns df) \<longrightarrow>
        (\<exists>df3. geocode_addresses rt g cache df
            = Inr (df3,
                   snd (geocode_loop rt g (frame_rows df)
                          \<lparr>cache_map = cache, updated = 0, lookups = []\<rparr>),
                   [GeocodingComplete (updated (snd (geocode_loop rt g (frame_rows df)
                          \<lparr>cache_map = cache, updated = 0, lookups = []\<rparr>)))])
          \<and> column df3 ''Latitude''
              = map fst (fst (geocode_loop rt g (frame_rows df)
                          \<lparr>cache_map = cache, updated = 0, lookups = []\<rparr>))
          \<and> column df3 ''Longitude''
              = map snd (fst (geocode_loop rt g (frame_rows df)
                          \<lparr>cache_map = cache, updated = 0, lookups = []\<rparr>))
          \<and> (\<forall>c. c \<noteq> ''Latitude'' \<and> c \<noteq> ''Longitude''
                 \<longrightarrow> map_of (cols df3) c = map_of (cols df) c)))
   \<and> (geocode_addresses rt g cache df = Inr (df1, stf, ms)
        \<longrightarrow> no_repeat_after_success (lookups stf))"
proof (intro conjI impI)
  assume r: "geocode_row rt g st (addr_raw, la, lo) = (v', st')"
    and addr: "addr = norm_addr rt addr_raw"
  show "v' = (la, lo)" "st' = st" if "addr = []"
    using that r addr by (simp_all add: geocode_row_empty)
  show "v' = (la, lo)" "st' = st" if "addr \<noteq> [] \<and> \<not> isna la \<and> \<not> isna lo"
    using that r addr by (simp_all add: geocode_row_filled)
  show "v' = c" "st' = st" if "addr \<noteq> [] \<and> (isna la \<or> isna lo) \<and> cache_map st addr = Some c"
    using that r addr geocode_row_cached[of rt addr_raw la lo st c g] by simp_all
  show "geocode_loop rt g [] s0 = ([], s0)" by simp
  show "length (fst (geocode_loop rt g rows s0)) = length rows"
    by (rule geocode_loop_length)
  show "fst (geocode_loop rt g rows s0) ! i
          = fst (geocode_row rt g (snd (geocode_loop rt g (take i rows) s0)) (rows ! i))"
    if "i < length rows"
    using that by (rule geocode_loop_nth)
  show "snd (geocode_loop rt g (take (Suc i) rows) s0)
          = snd (geocode_row rt g (snd (geocode_loop rt g (take i rows) s0)) (rows ! i))"
    if "i < length rows"
    using that by (rule geocode_loop_take_Suc)
  show "\<exists>df3. geocode_addresses rt g cache df
            = Inr (df3,
                   snd (geocode_loop rt g (frame_rows df)
                          \<lparr>cache_map = cache, updated = 0, lookups = []\<rparr>),
                   [GeocodingComplete (updated (snd (geocode_loop rt g (frame_rows df)
                          \<lparr>cache_map = cache, updated = 0, lookups = []\<rparr>)))])
          \<and> column df3 ''Latitude''
              = map fst (fst (geocode_loop rt g (frame_rows df)
                          \<lparr>cache_map = cache, updated = 0, lookups = []\<rparr>))
          \<and> column df3 ''Longitude''
              = map snd (fst (geocode_loop rt g (frame_rows df)
                          \<lparr>cache_map = cache, updated = 0, lookups = []\<rparr>))
          \<and> (\<forall>c. c \<noteq> ''Latitude'' \<and> c \<noteq> ''Longitude''
                 \<longrightarrow> map_of (cols df3) c = map_of (cols df) c)"
    if "ADDRESS_COL \<in> set (columns df)"
    using that by (rule geocode_addresses_pass)
  show "geocode_addresses rt g cache df = Inr (df1, stf, ms)
        \<Longrightarrow> no_repeat_after_success (lookups stf)"
    by (rule geocode_addresses_no_repeat)
  assume h: "addr \<noteq> [] \<and> (isna la \<or> isna lo) \<and> cache_map st addr = None"
  note live = geocode_row_live[of rt addr_raw la lo st g]
  show "lookups st' = lookups st @ [(addr, g (length (lookups st)) addr)]"
    using h r addr live by (auto split: option.splits)
  show "v' = (la, lo)" "cache_map st' = cache_map st" "updated st' = updated st"
    if "g (length (lookups st)) addr = None"
    using that h r addr live by auto
  assume s: "g (length (lookups st)) addr = Some (p, q)"
  show v: "v' = (CFloat p, CFloat q)"
    and c: "cache_map st' = (cache_map st)(addr \<mapsto> (CFloat p, CFloat q))"
    and "updated st' = updated st + 1"
    using s h r addr live by auto
  assume d: "norm_addr rt a2 = addr \<and> (isna la2 \<or> isna lo2)"
  from c have "cache_map st' addr = Some (CFloat p, CFloat q)" by simp
  then have "cache_map (snd (geocode_loop rt g mid st')) (norm_addr rt a2)
      = Some (CFloat p, CFloat q)"
    using d by (simp add: geocode_loop_cache_persist)
  with d h show "geocode_row rt g (snd (geocode_loop rt g mid st')) (a2, la2, lo2)
                = ((CFloat p, CFloat q), snd (geocode_loop rt g mid st'))"
    by (intro geocode_row_cached) auto
qed

lemma example_norm_addr:
  "norm_addr example_runtime (CStr ''1 Main St'') = ''1 Main St''"
  "norm_addr example_runtime (CStr '' 1  Main St '') = ''1 Main St''"
  by code_simp+

lemma list_of_two: "length xs = 2 \<Longrightarrow> xs = [xs ! 0, xs ! 1]"
  by (cases xs; cases "tl xs") auto

text \<open>
  The batch of two rows with one address: the loop makes one live lookup, for the first
  row, and fills both rows; the pass on the frame with these rows does the same.
\<close>

theorem geocode_lookup_order_witness:
  "fst (geocode_loop example_runtime example_geocoder example_batch example_state)
     = [(CFloat (Finite 39), CFloat (Finite (- 76))), (CFloat (Finite 39), CFloat (Finite (- 76)))]
   \<and> lookups (snd (geocode_loop example_runtime example_geocoder example_batch example_state))
     = [(''1 Main St'', Some (Finite 39, Finite (- 76)))]
   \<and> updated (snd (geocode_loop example_runtime example_geocoder example_batch example_state))
     = 1
   \<and> (\<exists>df3 (stf :: geo_state).
        geocode_addresses example_runtime example_geocoder Map.empty example_frame
          = Inr (df3, stf, [GeocodingComplete 1])
        \<and> column df3 ''Latitude'' = [CFloat (Finite 39), CFloat (Finite 39)]
        \<and> column df3 ''Longitude'' = [CFloat (Finite (- 76)), CFloat (Finite (- 76))]
        \<and> column df3 ''Address'' = [CStr ''1 Main St'', CStr '' 1  Main St '']
        \<and> lookups stf = [(''1 Main St'', Some (Finite 39, Finite (- 76)))]
        \<and> no_repeat_after_success (lookups stf))"
proof -
  let ?rt = example_runtime and ?g = example_geocoder
  let ?r1 = "(CStr ''1 Main St'', CNone, CNone)"
  let ?step1 = "geocode_row ?rt ?g example_state ?r1"
  let ?s1 = "snd ?step1"
  let ?L = "geocode_loop ?rt ?g example_batch example_state"
  let ?v = "(CFloat (Finite 39), CFloat (Finite (- 76)))"
  have r: "?step1 = (fst ?step1, ?s1)" by simp
  have h: "''1 Main St'' \<noteq> [] \<and> (isna CNone \<or> isna CNone)
      \<and> cache_map example_state ''1 Main St'' = None"
    by (simp add: example_state_def)
  have s: "example_geocoder (length (lookups example_state)) ''1 Main St''
      = Some (Finite 39, Finite (- 76))"
    by (simp add: example_geocoder_def)
  have d: "norm_addr example_runtime (CStr '' 1  Main St '') = ''1 Main St''
      \<and> (isna CNone \<or> isna CNone)"
    by (simp add: example_norm_addr)
  have i0: "(0::nat) < length example_batch" and i1: "(1::nat) < length example_batch"
    by (simp_all add: example_batch_def)
  have b: "ADDRESS_COL \<in> set (columns example_frame)"
    by (simp add: columns_def example_frame_def ADDRESS_COL_def)
  note t = geocode_lookup_order[OF r example_norm_addr(1)[symmetric],
      where p = "Finite 39" and q = "Finite (- 76)" and ?a2.0 = "CStr '' 1  Main St ''"
        and ?la2.0 = CNone and ?lo2.0 = CNone and mid = "[]"
        and rows = example_batch and ?s0.0 = example_state
        and df = example_frame and cache = Map.empty]
  text \<open>The first row: a live lookup that succeeds.\<close>
  from t[where i = 0] h s have v1: "fst ?step1 = ?v"
    and l1: "lookups ?s1 = lookups example_state @ [(''1 Main St'',
               example_geocoder (length (lookups example_state)) ''1 Main St'')]"
    and u1: "updated ?s1 = updated example_state + 1"
    by blast+
  text \<open>The second row, in the state the first row left: taken from the cache.\<close>
  from t[where i = 0] h s d
  have "geocode_row ?rt ?g (snd (geocode_loop ?rt ?g [] ?s1)) (CStr '' 1  Main St '', CNone, CNone)
      = (?v, snd (geocode_loop ?rt ?g [] ?s1))"
    by blast
  then have step2: "geocode_row ?rt ?g ?s1 (CStr '' 1  Main St '', CNone, CNone) = (?v, ?s1)"
    by simp
  text \<open>The loop on the two rows.\<close>
  from t[where i = 0] i0
  have n0: "fst ?L ! 0
      = fst (geocode_row ?rt ?g (snd (geocode_loop ?rt ?g (take 0 example_batch) example_state))
               (example_batch ! 0))"
    and m0: "snd (geocode_loop ?rt ?g (take (Suc 0) example_batch) example_state)
      = snd (geocode_row ?rt ?g (snd (geocode_loop ?rt ?g (take 0 example_batch) example_state))
               (example_batch ! 0))"
    and len: "length (fst ?L) = length example_batch"
    by blast+
  from t[where i = 1] i1
  have n1: "fst ?L ! 1
      = fst (geocode_row ?rt ?g (snd (geocode_loop ?rt ?g (take 1 example_batch) example_state))
               (example_batch ! 1))"
    and m1: "snd (geocode_loop ?rt ?g (take (Suc 1) example_batch) example_state)
      = snd (geocode_row ?rt ?g (snd (geocode_loop ?rt ?g (take 1 example_batch) example_state))
               (example_batch ! 1))"
    by blast+
  have e0: "fst ?L ! 0 = ?v"
    using n0 v1 by (simp add: example_batch_def)
  have a1: "snd (geocode_loop ?rt ?g (take 1 example_batch) example_state) = ?s1"
    using m0 by (simp add: example_batch_def)
  have e1: "fst ?L ! 1 = ?v"
    using n1 step2 unfolding a1 by (simp add: example_batch_def)
  have a2: "snd ?L = ?s1"
    using m1 step2 unfolding a1 by (simp add: example_batch_def)
  have "length (fst ?L) = 2" using len by (simp add: example_batch_def)
  then have "fst ?L = [fst ?L ! 0, fst ?L ! 1]" by (rule list_of_two)
  with e0 e1 have 1: "fst ?L = [?v, ?v]" by simp
  have 2: "lookups (snd ?L) = [(''1 Main St'', Some (Finite 39, Finite (- 76)))]"
    unfolding a2 using l1 s by (simp add: example_state_def)
  have 3: "updated (snd ?L) = 1"
    unfolding a2 using u1 by (simp add: example_state_def)
  text \<open>The pass on the frame.\<close>
  have f: "frame_rows example_frame = example_batch"
    by (simp add: frame_rows_def column_def get_or_na_def example_frame_def ADDRESS_COL_def
        example_batch_def eval_nat_numeral)
  from t[where i = 0] b obtain df3 where
    p: "geocode_addresses ?rt ?g Map.empty example_frame
          = Inr (df3,
                 snd (geocode_loop ?rt ?g (frame_rows example_frame)
                        \<lparr>cache_map = Map.empty, updated = 0, lookups = []\<rparr>),
                 [GeocodingComplete (updated (snd (geocode_loop ?rt ?g (frame_rows example_frame)
                        \<lparr>cache_map = Map.empty, updated = 0, lookups = []\<rparr>)))])"
      "column df3 ''Latitude''
          = map fst (fst (geocode_loop ?rt ?g (frame_rows example_frame)
                        \<lparr>cache_map = Map.empty, updated = 0, lookups = []\<rparr>))"
      "column df3 ''Longitude''
          = map snd (fst (geocode_loop ?rt ?g (frame_rows example_frame)
                        \<lparr>cache_map = Map.empty, updated = 0, lookups = []\<rparr>))"
      "\<forall>c. c \<noteq> ''Latitude'' \<and> c \<noteq> ''Longitude''
          \<longrightarrow> map_of (cols df3) c = map_of (cols example_frame) c"
    by blast
  from p(4) have "map_of (cols df3) ''Address'' = map_of (cols example_frame) ''Address''"
    by simp
  then have 5: "column df3 ''Address'' = [CStr ''1 Main St'', CStr '' 1  Main St '']"
    by (simp add: column_def example_frame_def)
  from t[where i = 0 and ?df1.0 = df3
      and stf = "snd (geocode_loop ?rt ?g (frame_rows example_frame)
                        \<lparr>cache_map = Map.empty, updated = 0, lookups = []\<rparr>)"] p(1)
  have "no_repeat_after_success (lookups (snd (geocode_loop ?rt ?g (frame_rows example_frame)
                        \<lparr>cache_map = Map.empty, updated = 0, lookups = []\<rparr>)))"
    by blast
  then have 6: "no_repeat_after_success (lookups (snd ?L))"
    unfolding f example_state_def[symmetric] .
  have 4: "geocode_addresses ?rt ?g Map.empty example_frame
          = Inr (df3, snd ?L, [GeocodingComplete 1])
        \<and> column df3 ''Latitude'' = [CFloat (Finite 39), CFloat (Finite 39)]
        \<and> column df3 ''Longitude'' = [CFloat (Finite (- 76)), CFloat (Finite (- 76))]
        \<and> column df3 ''Address'' = [CStr ''1 Main St'', CStr '' 1  Main St '']
        \<and> lookups (snd ?L) = [(''1 Main St'', Some (Finite 39, Finite (- 76)))]
        \<and> no_repeat_after_success (lookups (snd ?L))"
    using p(1-3) 1 2 3 5 6 unfolding f example_state_def[symmetric] by simp
  from 1 2 3 4 show ?thesis by blast
qed

end
